theory Spec2Isabelle
  imports Complex_Main
begin

section \<open>Numbers, values and the browser's key-value store\<close>

text \<open>
  The game computes with JavaScript numbers. Positions, speeds and times are modelled as
  exact reals: every quantity of the update loop is finite, and the rounding of doubles
  is left out. The score is a sum of \<open>Math.floor\<close> results starting from 0, an integer.
  The high score is different, because it is read from text that the program does not
  control: it is a \<open>jsnum\<close>, which also has the values NaN and the two infinities that
  \<open>Number(...)\<close> can return.
\<close>

datatype jsnum = Fin real | PosInf | NegInf | NaN

text \<open>The relational operator \<open>a > b\<close> on numbers; any comparison with NaN is false.\<close>

fun js_gt :: "jsnum \<Rightarrow> jsnum \<Rightarrow> bool" where
  "js_gt NaN _ = False"
| "js_gt _ NaN = False"
| "js_gt (Fin a) (Fin b) = (a > b)"
| "js_gt PosInf PosInf = False"
| "js_gt PosInf _ = True"
| "js_gt NegInf _ = False"
| "js_gt (Fin a) PosInf = False"
| "js_gt (Fin a) NegInf = True"

fun js_neg :: "jsnum \<Rightarrow> jsnum" where
  "js_neg (Fin a) = Fin (- a)"
| "js_neg PosInf = NegInf"
| "js_neg NegInf = PosInf"
| "js_neg NaN = NaN"

text \<open>
  The remainder operator \<open>a % b\<close> on finite numbers: the quotient is truncated towards
  zero, so the result has the sign of the dividend.
\<close>

definition js_rem :: "real \<Rightarrow> real \<Rightarrow> real" where
  "js_rem a b = a - b * of_int (if a / b < 0 then \<lceil>a / b\<rceil> else \<lfloor>a / b\<rfloor>)"

text \<open>The values that meet in \<open>localStorage.getItem(...) || 0\<close>: null, a string, a number.\<close>

datatype jsval = Null | Str string | Num jsnum

fun truthy :: "jsval \<Rightarrow> bool" where
  "truthy Null = False"
| "truthy (Str s) = (s \<noteq> [])"
| "truthy (Num n) = (n \<noteq> NaN \<and> n \<noteq> Fin 0)"

definition js_or :: "jsval \<Rightarrow> jsval \<Rightarrow> jsval" where
  "js_or a b = (if truthy a then a else b)"

subsection \<open>Text to number: \<open>Number(string)\<close>\<close>

text \<open>
  The conversion follows the StringNumericLiteral grammar of the language: surrounding
  white space is dropped, the empty text is 0, then come the binary, octal and
  hexadecimal integer literals, and the signed decimal literals with an optional
  fraction and exponent, and \<open>Infinity\<close>. Any other text is NaN. Strings are ASCII
  here, so only the ASCII white space characters are recognised, and the value of a
  literal is exact (no rounding to a double, no overflow to infinity).
\<close>

definition isWhiteSpace :: "char \<Rightarrow> bool" where
  "isWhiteSpace c = (c \<in> set [CHR '' '', CHR 0x09, CHR 0x0A, CHR 0x0B, CHR 0x0C, CHR 0x0D])"

definition trim :: "string \<Rightarrow> string" where
  "trim s = rev (dropWhile isWhiteSpace (rev (dropWhile isWhiteSpace s)))"

definition charVal :: "char \<Rightarrow> nat option" where
  "charVal c =
     (let n = (of_char c :: nat) in
      if 48 \<le> n \<and> n \<le> 57 then Some (n - 48)
      else if 97 \<le> n \<and> n \<le> 102 then Some (n - 87)
      else if 65 \<le> n \<and> n \<le> 70 then Some (n - 55)
      else None)"

definition isDec :: "char \<Rightarrow> bool" where
  "isDec c = (case charVal c of Some v \<Rightarrow> v < 10 | None \<Rightarrow> False)"

fun digitsAcc :: "nat \<Rightarrow> nat \<Rightarrow> string \<Rightarrow> nat option" where
  "digitsAcc radix acc [] = Some acc"
| "digitsAcc radix acc (c # cs) =
     (case charVal c of
        Some v \<Rightarrow> if v < radix then digitsAcc radix (acc * radix + v) cs else None
      | None \<Rightarrow> None)"

definition digitsVal :: "nat \<Rightarrow> string \<Rightarrow> nat option" where
  "digitsVal radix s = (if s = [] then None else digitsAcc radix 0 s)"

definition decNat :: "string \<Rightarrow> nat" where
  "decNat s = (case digitsAcc 10 0 s of Some n \<Rightarrow> n | None \<Rightarrow> 0)"

definition exponentPart :: "string \<Rightarrow> int option" where
  "exponentPart s =
     (case s of
        [] \<Rightarrow> Some 0
      | c # r \<Rightarrow>
          if c = CHR ''e'' \<or> c = CHR ''E'' then
            (case r of
               [] \<Rightarrow> None
             | d # r' \<Rightarrow>
                 if d = CHR ''+'' then map_option int (digitsVal 10 r')
                 else if d = CHR ''-'' then map_option (\<lambda>n. - int n) (digitsVal 10 r')
                 else map_option int (digitsVal 10 r))
          else None)"

definition unsignedDecimal :: "string \<Rightarrow> jsnum option" where
  "unsignedDecimal s =
     (if s = ''Infinity'' then Some PosInf
      else
        let ip = takeWhile isDec s;
            r = dropWhile isDec s;
            (fp, r2) = (case r of
                          [] \<Rightarrow> ([], [])
                        | c # r1 \<Rightarrow>
                            if c = CHR ''.'' then (takeWhile isDec r1, dropWhile isDec r1)
                            else ([], r))
        in if ip = [] \<and> fp = [] then None
           else map_option
                  (\<lambda>e. Fin ((real (decNat ip) + real (decNat fp) / 10 ^ length fp) * 10 powi e))
                  (exponentPart r2))"

definition strDecimalLiteral :: "string \<Rightarrow> jsnum option" where
  "strDecimalLiteral s =
     (case s of
        [] \<Rightarrow> None
      | c # r \<Rightarrow>
          if c = CHR ''+'' then unsignedDecimal r
          else if c = CHR ''-'' then map_option js_neg (unsignedDecimal r)
          else unsignedDecimal s)"

definition nonDecimalInteger :: "string \<Rightarrow> nat option" where
  "nonDecimalInteger s =
     (case s of
        a # b # r \<Rightarrow>
          if a = CHR ''0'' then
            (if b = CHR ''x'' \<or> b = CHR ''X'' then digitsVal 16 r
             else if b = CHR ''o'' \<or> b = CHR ''O'' then digitsVal 8 r
             else if b = CHR ''b'' \<or> b = CHR ''B'' then digitsVal 2 r
             else None)
          else None
      | _ \<Rightarrow> None)"

definition StringToNumber :: "string \<Rightarrow> jsnum" where
  "StringToNumber s =
     (let t = trim s in
      if t = [] then Fin 0
      else case nonDecimalInteger t of
             Some n \<Rightarrow> Fin (real n)
           | None \<Rightarrow> (case strDecimalLiteral t of Some v \<Rightarrow> v | None \<Rightarrow> NaN))"

fun Number :: "jsval \<Rightarrow> jsnum" where
  "Number Null = Fin 0"
| "Number (Num n) = n"
| "Number (Str s) = StringToNumber s"

subsection \<open>Number to text: \<open>String(n)\<close> on integers\<close>

text \<open>
  The decimal digits of an integer, with a leading minus sign when it is negative. This
  is what \<open>String(n)\<close> yields for an integer of magnitude below \<open>10^21\<close>; from there on
  the language switches to exponent notation, which no score of this game reaches.
\<close>

fun natDigits :: "nat \<Rightarrow> string" where
  "natDigits n =
     (if n < 10 then [char_of (48 + n)]
      else natDigits (n div 10) @ [char_of (48 + n mod 10)])"

definition String_int :: "int \<Rightarrow> string" where
  "String_int i = (if i < 0 then CHR ''-'' # natDigits (nat (- i)) else natDigits (nat i))"

subsection \<open>\<open>localStorage\<close>\<close>

type_synonym storage = "string \<rightharpoonup> string"

definition getItem :: "storage \<Rightarrow> string \<Rightarrow> jsval" where
  "getItem st k = (case st k of None \<Rightarrow> Null | Some v \<Rightarrow> Str v)"

text \<open>
  \<open>setItem\<close> is the one operation of the program that can throw (a full or disabled
  store). Whether it does is an input of the model.
\<close>

datatype dom_exception = QuotaExceededError

definition setItem :: "bool \<Rightarrow> storage \<Rightarrow> string \<Rightarrow> string \<Rightarrow> dom_exception + storage" where
  "setItem fails st k v = (if fails then Inl QuotaExceededError else Inr (st(k \<mapsto> v)))"

section \<open>First implementation: data and configuration\<close>

text \<open>The constants of the \<open>config\<close> object.\<close>

definition gravity :: real where "gravity = 2000"
definition groundHeight :: real where "groundHeight = 96"
definition player_w :: real where "player_w = 44"
definition player_h :: real where "player_h = 44"
definition player_startX :: real where "player_startX = 80"
definition player_startYOffset :: real where "player_startYOffset = 0"
definition obstacleMinGap :: real where "obstacleMinGap = 360"
definition obstacleMaxGap :: real where "obstacleMaxGap = 700"
definition obstacleSpeedStart :: real where "obstacleSpeedStart = 480"
definition obstacleAcceleration :: real where "obstacleAcceleration = 20"
definition spawnEarlyTime :: real where "spawnEarlyTime = 1200"

record player =
  p_x :: real
  p_y :: real
  p_vy :: real
  p_width :: real
  p_height :: real
  p_grounded :: bool

record obstacle =
  o_x :: real
  o_y :: real
  o_width :: real
  o_height :: real

record game_state =
  player :: player
  obstacles :: "obstacle list"
  lastSpawnX :: real
  speed :: real
  score :: int
  running :: bool
  groundOffset :: real

text \<open>The React state of the component: \<open>running\<close>, \<open>score\<close>, \<open>highScore\<close>, \<open>paused\<close>.\<close>

record component =
  running_st :: bool
  score_st :: int
  highScore_st :: jsnum
  paused_st :: bool

text \<open>
  What the handlers and the frame loop act on: the two refs, the component's state as
  the setters leave it, and the store.
\<close>

record world =
  gameStateRef :: "game_state option"
  lastTimeRef :: real
  react :: component
  localStorage :: storage

text \<open>
  The three \<open>Math.random()\<close> results that one call of \<open>spawnObstacle\<close> consumes, in the
  order of the calls: for the gap, for the height, for the width.
\<close>

record draws =
  d_gap :: real
  d_height :: real
  d_width :: real

text \<open>
  The inputs of one frame: the timestamp, the canvas size in device pixels, the device
  pixel ratio, the random draws, whether a write to the store throws, and the values of
  \<open>paused\<close>, \<open>score\<close> and \<open>highScore\<close> that the closure of \<open>loop\<close> holds (those of the
  render in which the effect that defines \<open>loop\<close> last ran).
\<close>

record tick =
  timestamp :: real
  canvas_width :: real
  canvas_height :: real
  devicePixelRatio :: real
  random :: draws
  setItem_fails :: bool
  captured :: component

definition highscore_key :: string where
  "highscore_key = ''classic-highscore''"

text \<open>
  \<^verbatim>\<open>
  useState(() => {
    if (typeof window !== 'undefined') return Number(localStorage.getItem('classic-highscore') || 0);
    return 0;
  })
  \<close>
  The argument is the store of the window, or \<open>None\<close> where there is no window.
\<close>

definition initHighScore :: "storage option \<Rightarrow> jsnum" where
  "initHighScore win =
     (case win of
        Some st \<Rightarrow> Number (js_or (getItem st highscore_key) (Num (Fin 0)))
      | None \<Rightarrow> Fin 0)"

definition resetGameState :: game_state where
  "resetGameState =
     \<lparr>player = \<lparr>p_x = player_startX, p_y = 0, p_vy = 0,
                 p_width = player_w, p_height = player_h, p_grounded = False\<rparr>,
      obstacles = [],
      lastSpawnX = 0,
      speed = obstacleSpeedStart,
      score = 0,
      running = True,
      groundOffset = 0\<rparr>"

section \<open>First implementation: the actions\<close>

text \<open>
  \<^verbatim>\<open>
  function jump() {
    const state = gameStateRef.current;
    if (!state) return;
    if (!state.running) return;
    if (state.player.grounded) { state.player.vy = -820; state.player.grounded = false; }
    else { }
  }
  \<close>
\<close>

definition jump :: "world \<Rightarrow> world" where
  "jump w =
     (case gameStateRef w of
        None \<Rightarrow> w
      | Some s \<Rightarrow>
          if \<not> running s then w
          else if p_grounded (player s) then
            w\<lparr>gameStateRef := Some (s\<lparr>player := (player s)\<lparr>p_vy := - 820, p_grounded := False\<rparr>\<rparr>)\<rparr>
          else w)"

text \<open>
  \<^verbatim>\<open>
  function restart() {
    gameStateRef.current = resetGameState();
    setScore(0); setRunning(true);
    lastTimeRef.current = 0;
  }
  \<close>
\<close>

definition restart :: "world \<Rightarrow> world" where
  "restart w =
     w\<lparr>gameStateRef := Some resetGameState,
       react := (react w)\<lparr>score_st := 0, running_st := True\<rparr>,
       lastTimeRef := 0\<rparr>"

definition togglePause :: "world \<Rightarrow> world" where
  "togglePause w = w\<lparr>react := (react w)\<lparr>paused_st := \<not> paused_st (react w)\<rparr>\<rparr>"

section \<open>First implementation: the collision utility\<close>

record rect =
  r_x :: real
  r_y :: real
  r_width :: real
  r_height :: real

text \<open>
  \<^verbatim>\<open>
  function rectsCollide(a, b) {
    return !(a.x + a.width < b.x || a.x > b.x + b.width ||
             a.y + a.height < b.y || a.y > b.y + b.height);
  }
  \<close>
\<close>

definition rectsCollide :: "rect \<Rightarrow> rect \<Rightarrow> bool" where
  "rectsCollide a b =
     (\<not> (r_x a + r_width a < r_x b \<or>
         r_x a > r_x b + r_width b \<or>
         r_y a + r_height a < r_y b \<or>
         r_y a > r_y b + r_height b))"

subsection \<open>The specification's vocabulary for overlap\<close>

text \<open>
  The signed extent that two rectangles share on an axis: positive when the intervals
  overlap, zero when their edges touch, negative when there is a gap between them.
\<close>

definition overlap_x :: "rect \<Rightarrow> rect \<Rightarrow> real" where
  "overlap_x a b = min (r_x a + r_width a) (r_x b + r_width b) - max (r_x a) (r_x b)"

definition overlap_y :: "rect \<Rightarrow> rect \<Rightarrow> real" where
  "overlap_y a b = min (r_y a + r_height a) (r_y b + r_height b) - max (r_y a) (r_y b)"

text \<open>The specification's reading of a collision: positive overlap on both axes.\<close>

definition spec_strict_overlap :: "rect \<Rightarrow> rect \<Rightarrow> bool" where
  "spec_strict_overlap a b = (0 < overlap_x a b \<and> 0 < overlap_y a b)"

text \<open>What the utility computes: the closed rectangles meet, a shared edge included.\<close>

definition closed_overlap :: "rect \<Rightarrow> rect \<Rightarrow> bool" where
  "closed_overlap a b = (0 \<le> overlap_x a b \<and> 0 \<le> overlap_y a b)"

definition well_formed :: "rect \<Rightarrow> bool" where
  "well_formed a = (0 \<le> r_width a \<and> 0 \<le> r_height a)"

section \<open>First implementation: the obstacle generator\<close>

text \<open>
  \<^verbatim>\<open>
  function spawnObstacle(canvasW) {
    const state = gameStateRef.current;
    const gap = config.obstacleMinGap + Math.random() * (config.obstacleMaxGap - config.obstacleMinGap);
    const lastX = state.lastSpawnX || canvasW;
    const x = canvasW + gap;
    const h = 36 + Math.random() * 64;
    const obstacle = { x, y: canvasW * 0 + (0), width: 28 + Math.random() * 48, height: h };
    state.obstacles.push(obstacle);
    state.lastSpawnX = x;
  }
  \<close>
  The local \<open>lastX\<close> is never read.
\<close>

definition spawn_gap :: "draws \<Rightarrow> real" where
  "spawn_gap d = obstacleMinGap + d_gap d * (obstacleMaxGap - obstacleMinGap)"

definition spawnObstacle :: "draws \<Rightarrow> real \<Rightarrow> game_state \<Rightarrow> game_state" where
  "spawnObstacle d canvasW s =
     (let gap = spawn_gap d;
          x = canvasW + gap;
          h = 36 + d_height d * 64;
          ob = \<lparr>o_x = x, o_y = canvasW * 0 + 0, o_width = 28 + d_width d * 48, o_height = h\<rparr>
      in s\<lparr>obstacles := obstacles s @ [ob], lastSpawnX := x\<rparr>)"

text \<open>
  The trigger of the frame loop:
  \<^verbatim>\<open>
  const lastX = state.obstacles.length ? state.obstacles[state.obstacles.length - 1].x : -Infinity;
  if (state.obstacles.length === 0 || lastX < canvas.width - config.spawnEarlyTime) spawnObstacle(canvas.width);
  \<close>
  \<open>lastX\<close> is only compared when the sequence is not empty.
\<close>

definition spawn_due :: "real \<Rightarrow> obstacle list \<Rightarrow> bool" where
  "spawn_due canvasW obs = (obs = [] \<or> o_x (last obs) < canvasW - spawnEarlyTime)"

section \<open>First implementation: the physics update\<close>

text \<open>\<open>window.devicePixelRatio || 1\<close>: a ratio of zero is replaced by 1.\<close>

definition dpr_or_1 :: "real \<Rightarrow> real" where
  "dpr_or_1 r = (if r = 0 then 1 else r)"

text \<open>
  \<^verbatim>\<open>
  const groundY = canvas.height / (window.devicePixelRatio || 1) - config.groundHeight
                  - p.height + config.player.startYOffset;
  \<close>
\<close>

definition groundY :: "tick \<Rightarrow> player \<Rightarrow> real" where
  "groundY i p =
     canvas_height i / dpr_or_1 (devicePixelRatio i) - groundHeight - p_height p + player_startYOffset"

text \<open>
  \<^verbatim>\<open>
  p.vy += config.gravity * dt;
  p.y += p.vy * dt;
  if (p.y >= groundY) { p.y = groundY; p.vy = 0; p.grounded = true; }
  \<close>
\<close>

definition integrate :: "real \<Rightarrow> player \<Rightarrow> player" where
  "integrate dt p =
     (let p1 = p\<lparr>p_vy := p_vy p + gravity * dt\<rparr>
      in p1\<lparr>p_y := p_y p1 + p_vy p1 * dt\<rparr>)"

definition clampToGround :: "real \<Rightarrow> player \<Rightarrow> player" where
  "clampToGround gy p =
     (if p_y p \<ge> gy then p\<lparr>p_y := gy, p_vy := 0, p_grounded := True\<rparr> else p)"

definition playerRect :: "player \<Rightarrow> rect" where
  "playerRect p = \<lparr>r_x = p_x p, r_y = p_y p, r_width = p_width p, r_height = p_height p\<rparr>"

definition obstacleRect :: "tick \<Rightarrow> obstacle \<Rightarrow> rect" where
  "obstacleRect i ob =
     \<lparr>r_x = o_x ob,
      r_y = canvas_height i / dpr_or_1 (devicePixelRatio i) - groundHeight - o_height ob,
      r_width = o_width ob,
      r_height = o_height ob\<rparr>"

text \<open>
  What the loop carries through an update: the session state, the component's state as
  the setters leave it, and the store.
\<close>

record session =
  state :: game_state
  ui :: component
  store :: storage

text \<open>
  The body of the collision branch:
  \<^verbatim>\<open>
  state.running = false;
  setRunning(false);
  if (state.score > highScore) {
    try { localStorage.setItem('classic-highscore', String(state.score)); } catch (e) {}
    setHighScore(state.score);
  }
  \<close>
\<close>

definition gameOver :: "tick \<Rightarrow> session \<Rightarrow> session" where
  "gameOver i c =
     (let s = (state c)\<lparr>running := False\<rparr>;
          u = (ui c)\<lparr>running_st := False\<rparr>
      in if js_gt (Fin (of_int (score s))) (highScore_st (captured i)) then
           \<lparr>state = s,
            ui = u\<lparr>highScore_st := Fin (of_int (score s))\<rparr>,
            store = (case setItem (setItem_fails i) (store c) highscore_key (String_int (score s)) of
                       Inl e \<Rightarrow> store c
                     | Inr st \<Rightarrow> st)\<rparr>
         else \<lparr>state = s, ui = u, store = store c\<rparr>)"

text \<open>
  \<^verbatim>\<open>
  for (let i = 0; i < state.obstacles.length; i++) {
    const o = state.obstacles[i];
    ...
    if (rectsCollide(playerRect, obstacleRect)) { ... }
  }
  \<close>
  The loop does not stop at a collision and does not change the sequence it walks.
\<close>

fun collisionLoop :: "tick \<Rightarrow> obstacle list \<Rightarrow> session \<Rightarrow> session" where
  "collisionLoop i [] c = c"
| "collisionLoop i (ob # obs) c =
     collisionLoop i obs
       (if rectsCollide (playerRect (player (state c))) (obstacleRect i ob) then gameOver i c else c)"

text \<open>The steps of the update, in the order of the source.\<close>

definition moveObstacles :: "real \<Rightarrow> game_state \<Rightarrow> game_state" where
  "moveObstacles dt s = s\<lparr>obstacles := map (\<lambda>ob. ob\<lparr>o_x := o_x ob - speed s * dt\<rparr>) (obstacles s)\<rparr>"

definition accelerate :: "real \<Rightarrow> game_state \<Rightarrow> game_state" where
  "accelerate dt s = s\<lparr>speed := speed s + obstacleAcceleration * dt\<rparr>"

definition dropOffscreen :: "game_state \<Rightarrow> game_state" where
  "dropOffscreen s = s\<lparr>obstacles := filter (\<lambda>ob. o_x ob + o_width ob > - 100) (obstacles s)\<rparr>"

definition spawnStep :: "tick \<Rightarrow> game_state \<Rightarrow> game_state" where
  "spawnStep i s =
     (if spawn_due (canvas_width i) (obstacles s) then spawnObstacle (random i) (canvas_width i) s
      else s)"

definition score_gain :: "real \<Rightarrow> game_state \<Rightarrow> int" where
  "score_gain dt s = \<lfloor>speed s * dt * (5 / 100)\<rfloor>"

definition addScore :: "real \<Rightarrow> game_state \<Rightarrow> game_state" where
  "addScore dt s = s\<lparr>score := score s + score_gain dt s\<rparr>"

definition advanceGround :: "real \<Rightarrow> game_state \<Rightarrow> game_state" where
  "advanceGround dt s = s\<lparr>groundOffset := js_rem (groundOffset s + speed s * dt) 60\<rparr>"

text \<open>
  The block guarded by \<open>if (!paused && state.running)\<close>, in two parts: the steps before
  the collision loop, and the whole. After the score is added,
  \<open>if (state.score > score) setScore(state.score)\<close> compares with the captured score.
\<close>

definition advance :: "tick \<Rightarrow> real \<Rightarrow> session \<Rightarrow> session" where
  "advance i dt c =
     (let s0 = state c;
          p = clampToGround (groundY i (player s0)) (integrate dt (player s0));
          s1 = s0\<lparr>player := p\<rparr>;
          s2 = moveObstacles dt s1;
          s3 = accelerate dt s2;
          s4 = dropOffscreen s3;
          s5 = spawnStep i s4;
          s6 = addScore dt s5;
          u = (if score s6 > score_st (captured i) then (ui c)\<lparr>score_st := score s6\<rparr> else ui c);
          s7 = advanceGround dt s6
      in \<lparr>state = s7, ui = u, store = store c\<rparr>)"

definition update :: "tick \<Rightarrow> real \<Rightarrow> session \<Rightarrow> session" where
  "update i dt c = (let c1 = advance i dt c in collisionLoop i (obstacles (state c1)) c1)"

section \<open>First implementation: the renderer and the frame loop\<close>

text \<open>
  The renderer writes to the canvas only. Its model is the list of the drawing calls it
  makes, in order; the two template literals keep the value they print.
\<close>

datatype fill_style =
    Color string
  | LinearGradient real real real real "(real \<times> string) list"

datatype label = Literal string | ScoreLabel int | HighLabel jsnum

text \<open>An angle of \<open>ctx.arc\<close>: a number of radians, or a multiple of \<open>Math.PI\<close>.\<close>

datatype angle = Radians real | TimesPi real

datatype draw_cmd =
    ClearRect real real real real
  | FillStyle fill_style
  | FillRect real real real real
  | BeginPath
  | Arc real real real angle angle
  | Fill
  | Save
  | Translate real real
  | Restore
  | Font string
  | FillText label real real

text \<open>
  \<^verbatim>\<open>
  for (let x = -60; x < vw + 60; x += 60) {
    ctx.fillStyle = 'rgba(255,255,255,0.04)';
    ctx.fillRect(x, groundTop + 18, 40, 8);
  }
  \<close>
\<close>

function groundStrips :: "real \<Rightarrow> real \<Rightarrow> real \<Rightarrow> draw_cmd list" where
  "groundStrips x vw groundTop =
     (if x < vw + 60 then
        FillStyle (Color ''rgba(255,255,255,0.04)'') # FillRect x (groundTop + 18) 40 8
          # groundStrips (x + 60) vw groundTop
      else [])"
  by pat_completeness auto
termination
proof (relation "measure (\<lambda>(x, vw, groundTop). nat \<lceil>(vw + 60 - x) / 60\<rceil>)")
  show "wf (measure (\<lambda>(x, vw, groundTop). nat \<lceil>(vw + 60 - x) / 60\<rceil>))"
    by simp
next
  fix x vw groundTop :: real
  assume lt: "x < vw + 60"
  have "\<lceil>(vw + 60 - (x + 60)) / 60\<rceil> = \<lceil>(vw + 60 - x) / 60 - 1\<rceil>"
    by (simp add: field_simps)
  also have "\<dots> = \<lceil>(vw + 60 - x) / 60\<rceil> - 1"
    by simp
  finally have step: "\<lceil>(vw + 60 - (x + 60)) / 60\<rceil> = \<lceil>(vw + 60 - x) / 60\<rceil> - 1" .
  from lt have "0 < (vw + 60 - x) / 60"
    by simp
  then have "0 < \<lceil>(vw + 60 - x) / 60\<rceil>"
    by (simp add: ceiling_less_iff)
  with step show "((x + 60, vw, groundTop), (x, vw, groundTop))
      \<in> measure (\<lambda>(x, vw, groundTop). nat \<lceil>(vw + 60 - x) / 60\<rceil>)"
    by simp
qed

declare groundStrips.simps [simp del]

definition drawObstacle :: "real \<Rightarrow> obstacle \<Rightarrow> draw_cmd list" where
  "drawObstacle vh ob =
     (let ox = o_x ob;
          oy = vh - groundHeight - o_height ob
      in [FillStyle (Color ''#8b4513''),
          FillRect ox oy (o_width ob) (o_height ob),
          FillStyle (Color ''rgba(255,255,255,0.06)''),
          FillRect (ox + 4) (oy + 4) (o_width ob - 8) 6])"

definition uiFont :: string where
  "uiFont = ''20px ui-sans-serif, system-ui, -apple-system, '' @ [CHR 0x22] @ ''Segoe UI''
            @ [CHR 0x22] @ '', Roboto, '' @ [CHR 0x22] @ ''Helvetica Neue'' @ [CHR 0x22]
            @ '', Arial''"

text \<open>
  The drawing part of \<open>loop\<close>, from \<open>ctx.clearRect\<close> to the game-over overlay. It reads the
  session state and the captured \<open>score\<close> and \<open>highScore\<close> and assigns to neither.
\<close>

definition render :: "tick \<Rightarrow> game_state \<Rightarrow> draw_cmd list" where
  "render i s =
     (let vw = canvas_width i / dpr_or_1 (devicePixelRatio i);
          vh = canvas_height i / dpr_or_1 (devicePixelRatio i);
          groundTop = vh - groundHeight;
          p = player s;
          playerY = (if p_y p = 0 then vh - groundHeight - p_height p else p_y p)
      in [ClearRect 0 0 (canvas_width i) (canvas_height i),
          FillStyle (LinearGradient 0 0 0 vh [(0, ''#8fd3f4''), (1, ''#a8e6ff'')]),
          FillRect 0 0 vw vh,
          BeginPath,
          Arc (vw - 80) 80 36 (Radians 0) (TimesPi 2),
          FillStyle (Color ''rgba(255, 240, 120, 0.95)''),
          Fill,
          FillStyle (Color ''#6b8e23''),
          FillRect 0 groundTop vw groundHeight,
          Save,
          Translate (- groundOffset s) 0]
         @ groundStrips (- 60) vw groundTop
         @ [Restore,
            FillStyle (Color ''#222222''),
            FillRect (p_x p) playerY (p_width p) (p_height p),
            FillStyle (Color ''#fff''),
            FillRect (p_x p + 8) (playerY + 12) 6 6,
            FillRect (p_x p + p_width p - 14) (playerY + 12) 6 6,
            FillStyle (Color ''#ff6666''),
            FillRect (p_x p + 10) (playerY + p_height p - 12) (p_width p - 20) 6]
         @ concat (map (drawObstacle vh) (obstacles s))
         @ [Font uiFont,
            FillStyle (Color ''#082032''),
            FillText (ScoreLabel (score_st (captured i))) 16 32,
            FillText (HighLabel (highScore_st (captured i))) 16 58]
         @ (if \<not> running s then
              [FillStyle (Color ''rgba(0,0,0,0.45)''),
               FillRect 0 0 vw vh,
               FillStyle (Color ''#fff''),
               Font ''36px ui-sans-serif'',
               FillText (Literal ''Game Over'') (vw / 2 - 90) (vh / 2 - 20),
               Font ''18px ui-sans-serif'',
               FillText (Literal ''Press R to restart'') (vw / 2 - 86) (vh / 2 + 18)]
            else []))"

text \<open>
  \<^verbatim>\<open>
  function loop(timestamp) {
    if (!lastTimeRef.current) lastTimeRef.current = timestamp;
    const dt = Math.min(40, timestamp - lastTimeRef.current) / 1000;
    lastTimeRef.current = timestamp;
    if (!gameStateRef.current) gameStateRef.current = resetGameState();
    const state = gameStateRef.current;
    if (!paused && state.running) { ... update ... }
    ... draw ...
    requestRef.current = requestAnimationFrame(loop);
  }
  \<close>
  One call of \<open>loop\<close> maps the world to the next world and the frame it draws. The
  scheduling of the next call is the list of ticks that \<open>run\<close> is given.
\<close>

definition frame_dt :: "tick \<Rightarrow> world \<Rightarrow> real" where
  "frame_dt i w =
     (let last0 = (if lastTimeRef w = 0 then timestamp i else lastTimeRef w)
      in min 40 (timestamp i - last0) / 1000)"

definition current_state :: "world \<Rightarrow> game_state" where
  "current_state w = (case gameStateRef w of None \<Rightarrow> resetGameState | Some s \<Rightarrow> s)"

definition loop :: "tick \<Rightarrow> world \<Rightarrow> world \<times> draw_cmd list" where
  "loop i w =
     (let dt = frame_dt i w;
          s0 = current_state w;
          c0 = \<lparr>state = s0, ui = react w, store = localStorage w\<rparr>;
          c1 = (if \<not> paused_st (captured i) \<and> running s0 then update i dt c0 else c0)
      in (\<lparr>gameStateRef = Some (state c1), lastTimeRef = timestamp i,
           react = ui c1, localStorage = store c1\<rparr>,
          render i (state c1)))"

fun run :: "tick list \<Rightarrow> world \<Rightarrow> world" where
  "run [] w = w"
| "run (i # ts) w = run ts (fst (loop i w))"

section \<open>Concrete inputs\<close>

text \<open>
  A frame 16 ms after the previous one, on a canvas of 896 by 420 pixels at pixel ratio
  1, with the component unpaused and a high score of 0; a world whose session has just
  been reset; and a world whose player is one pixel above the ground line, falling.
\<close>

definition example_tick :: tick where
  "example_tick =
     \<lparr>timestamp = 1016, canvas_width = 896, canvas_height = 420, devicePixelRatio = 1,
      random = \<lparr>d_gap = 1 / 2, d_height = 1 / 2, d_width = 1 / 2\<rparr>,
      setItem_fails = False,
      captured = \<lparr>running_st = True, score_st = 0, highScore_st = Fin 0, paused_st = False\<rparr>\<rparr>"

definition example_world :: world where
  "example_world =
     \<lparr>gameStateRef = Some resetGameState,
      lastTimeRef = 1000,
      react = \<lparr>running_st = True, score_st = 0, highScore_st = Fin 0, paused_st = False\<rparr>,
      localStorage = Map.empty\<rparr>"

definition falling_state :: game_state where
  "falling_state = resetGameState\<lparr>player := (player resetGameState)\<lparr>p_y := 279, p_vy := 100\<rparr>\<rparr>"

definition falling_world :: world where
  "falling_world = example_world\<lparr>gameStateRef := Some falling_state\<rparr>"

text \<open>A later frame, 50 ms after the first, and a world whose session has reached speed 1000.\<close>

definition later_tick :: tick where
  "later_tick = example_tick\<lparr>timestamp := 1066\<rparr>"

definition fast_world :: world where
  "fast_world = example_world\<lparr>gameStateRef := Some (resetGameState\<lparr>speed := 1000\<rparr>)\<rparr>"

section \<open>Second implementation\<close>

text \<open>
  The second page keeps its game in local variables of one effect: the player, the
  obstacle array, the constant speed, a frame counter and the running flag. The score
  and \<open>isJumping\<close> are React state. Its drawing calls write to the canvas only and are
  left out; everything that the loop assigns is modelled.
\<close>

record player2 =
  q_x :: real
  q_y :: real
  q_width :: real
  q_height :: real
  q_dy :: real
  q_gravity :: real

record classics =
  player2 :: player2
  obstacles2 :: "obstacle list"
  gameSpeed :: real
  frame :: nat
  running2 :: bool
  score2 :: nat
  isJumping :: bool

text \<open>
  The state in which the effect starts, for a canvas of the given height; the score and
  \<open>isJumping\<close> are those of the component at that moment.
\<close>

definition start2 :: "real \<Rightarrow> nat \<Rightarrow> bool \<Rightarrow> classics" where
  "start2 height sc j =
     \<lparr>player2 = \<lparr>q_x = 50, q_y = height - 80, q_width = 50, q_height = 50, q_dy = 0, q_gravity = 1\<rparr>,
      obstacles2 = [],
      gameSpeed = 6,
      frame = 0,
      running2 = True,
      score2 = sc,
      isJumping = j\<rparr>"

text \<open>
  \<^verbatim>\<open>
  obstacles.push({ x: width, y: height - 50, width: 40 + Math.random() * 20, height: 40 });
  \<close>
\<close>

definition spawnObstacle2 :: "real \<Rightarrow> real \<Rightarrow> real \<Rightarrow> obstacle list \<Rightarrow> obstacle list" where
  "spawnObstacle2 width height rnd obs =
     obs @ [\<lparr>o_x = width, o_y = height - 50, o_width = 40 + rnd * 20, o_height = 40\<rparr>]"

text \<open>
  \<^verbatim>\<open>
  if (player.x < o.x + o.width && player.x + player.width > o.x &&
      player.y < o.y + o.height && player.y + player.height > o.y) { running = false; }
  \<close>
\<close>

definition collides2 :: "player2 \<Rightarrow> obstacle \<Rightarrow> bool" where
  "collides2 p ob =
     (q_x p < o_x ob + o_width ob \<and>
      q_x p + q_width p > o_x ob \<and>
      q_y p < o_y ob + o_height ob \<and>
      q_y p + q_height p > o_y ob)"

definition rect_of_player2 :: "player2 \<Rightarrow> rect" where
  "rect_of_player2 p = \<lparr>r_x = q_x p, r_y = q_y p, r_width = q_width p, r_height = q_height p\<rparr>"

definition rect_of_obstacle :: "obstacle \<Rightarrow> rect" where
  "rect_of_obstacle ob = \<lparr>r_x = o_x ob, r_y = o_y ob, r_width = o_width ob, r_height = o_height ob\<rparr>"

text \<open>
  \<^verbatim>\<open>
  obstacles.forEach((o, i) => {
    o.x -= gameSpeed;
    if (collision) running = false;
    if (o.x + o.width < 0) { obstacles.splice(i, 1); setScore((s) => s + 1); }
  });
  \<close>
  \<open>forEach\<close> fixes the number of indices it visits when it starts and skips an index that
  the array no longer has. A \<open>splice\<close> inside the callback shortens the array, so the
  element that follows a removed one moves to the index just visited and is not visited
  in this pass. The walk carries the array, the running flag and the score.
\<close>

function forEach2 :: "real \<Rightarrow> player2 \<Rightarrow> nat \<Rightarrow> nat \<Rightarrow> obstacle list \<times> bool \<times> nat
    \<Rightarrow> obstacle list \<times> bool \<times> nat" where
  "forEach2 gs p k len (obs, rn, sc) =
     (if k < len then
        (if k < length obs then
           (let ob = (obs ! k)\<lparr>o_x := o_x (obs ! k) - gs\<rparr>;
                obs1 = obs[k := ob];
                rn1 = (if collides2 p ob then False else rn)
            in if o_x ob + o_width ob < 0
               then forEach2 gs p (k + 1) len (take k obs1 @ drop (k + 1) obs1, rn1, sc + 1)
               else forEach2 gs p (k + 1) len (obs1, rn1, sc))
         else forEach2 gs p (k + 1) len (obs, rn, sc))
      else (obs, rn, sc))"
  by pat_completeness auto
termination
  by (relation "measure (\<lambda>(gs, p, k, len, c). len - k)") auto

declare forEach2.simps [simp del]

text \<open>
  \<^verbatim>\<open>
  const loop = () => {
    if (!running) return;
    player.y += player.dy;
    player.dy += player.gravity;
    if (player.y > height - 80) { player.y = height - 80; player.dy = 0; setIsJumping(false); }
    if (frame % 100 === 0) spawnObstacle();
    obstacles.forEach(...);
    frame++;
    requestAnimationFrame(loop);
  };
  \<close>
  The arguments are the canvas width and height and the random draw of a spawn.
\<close>

definition movePlayer2 :: "real \<Rightarrow> classics \<Rightarrow> classics" where
  "movePlayer2 height g =
     (let p = player2 g;
          p1 = p\<lparr>q_y := q_y p + q_dy p\<rparr>;
          p2 = p1\<lparr>q_dy := q_dy p1 + q_gravity p1\<rparr>
      in if q_y p2 > height - 80
         then g\<lparr>player2 := p2\<lparr>q_y := height - 80, q_dy := 0\<rparr>, isJumping := False\<rparr>
         else g\<lparr>player2 := p2\<rparr>)"

definition spawned2 :: "real \<Rightarrow> real \<Rightarrow> real \<Rightarrow> classics \<Rightarrow> obstacle list" where
  "spawned2 width height rnd g =
     (if frame g mod 100 = 0 then spawnObstacle2 width height rnd (obstacles2 g) else obstacles2 g)"

definition loop2 :: "real \<Rightarrow> real \<Rightarrow> real \<Rightarrow> classics \<Rightarrow> classics" where
  "loop2 width height rnd g =
     (if \<not> running2 g then g
      else
        let g1 = movePlayer2 height g;
            obs1 = spawned2 width height rnd g1;
            (obs2, rn, sc) = forEach2 (gameSpeed g1) (player2 g1) 0 (length obs1)
                               (obs1, running2 g1, score2 g1)
        in g1\<lparr>obstacles2 := obs2, running2 := rn, score2 := sc, frame := frame g1 + 1\<rparr>)"

text \<open>
  \<^verbatim>\<open>
  const jump = () => {
    if (!isJumping && player.y >= height - 80) { player.dy = -18; setIsJumping(true); }
  };
  \<close>
\<close>

definition jump2 :: "real \<Rightarrow> classics \<Rightarrow> classics" where
  "jump2 height g =
     (if \<not> isJumping g \<and> q_y (player2 g) \<ge> height - 80
      then g\<lparr>player2 := (player2 g)\<lparr>q_dy := - 18\<rparr>, isJumping := True\<rparr>
      else g)"

text \<open>A run of frames; each frame brings the random draw that a spawn would use.\<close>

fun run2 :: "real \<Rightarrow> real \<Rightarrow> real list \<Rightarrow> classics \<Rightarrow> classics" where
  "run2 width height [] g = g"
| "run2 width height (rnd # rs) g = run2 width height rs (loop2 width height rnd g)"

text \<open>
  Vocabulary for the statements about the walk: an obstacle after one step of scrolling,
  an obstacle whose right edge is left of \<open>x = 0\<close>, and the number of spawns in a run
  of frames (a frame spawns when the game is running and the frame counter is a
  multiple of 100).
\<close>

definition scrolled :: "real \<Rightarrow> obstacle \<Rightarrow> obstacle" where
  "scrolled gs ob = ob\<lparr>o_x := o_x ob - gs\<rparr>"

definition off_left :: "obstacle \<Rightarrow> bool" where
  "off_left ob = (o_x ob + o_width ob < 0)"

fun spawns2 :: "real \<Rightarrow> real \<Rightarrow> real list \<Rightarrow> classics \<Rightarrow> nat" where
  "spawns2 width height [] g = 0"
| "spawns2 width height (rnd # rs) g =
     (if running2 g \<and> frame g mod 100 = 0 then 1 else 0)
       + spawns2 width height rs (loop2 width height rnd g)"

text \<open>
  The walk told over the list instead of over indices, for comparison with \<open>forEach2\<close>:
  the first component is the array the walk leaves, the second the obstacles it removes,
  as they are when removed. An obstacle is scrolled; if its right edge is then left of
  \<open>x = 0\<close> it is removed, and the obstacle after it is passed over unchanged; otherwise
  it is kept as scrolled.
\<close>

fun sweep2 :: "real \<Rightarrow> obstacle list \<Rightarrow> obstacle list \<times> obstacle list" where
  "sweep2 gs [] = ([], [])"
| "sweep2 gs [ob] =
     (if off_left (scrolled gs ob) then ([], [scrolled gs ob]) else ([scrolled gs ob], []))"
| "sweep2 gs (ob # nx # rest) =
     (if off_left (scrolled gs ob)
      then (nx # fst (sweep2 gs rest), scrolled gs ob # snd (sweep2 gs rest))
      else (scrolled gs ob # fst (sweep2 gs (nx # rest)), snd (sweep2 gs (nx # rest))))"

text \<open>The obstacles removed over a run of frames, in the order of their removal.\<close>

fun removed2 :: "real \<Rightarrow> real \<Rightarrow> real list \<Rightarrow> classics \<Rightarrow> obstacle list" where
  "removed2 width height [] g = []"
| "removed2 width height (rnd # rs) g =
     (if running2 g then snd (sweep2 (gameSpeed g) (spawned2 width height rnd g)) else [])
       @ removed2 width height rs (loop2 width height rnd g)"

text \<open>
  A game in progress on a canvas of 800 by 480 pixels: the player is in the air, one
  obstacle has almost left the canvas on the left, another is in the middle.
\<close>

definition passing_state :: classics where
  "passing_state =
     \<lparr>player2 = \<lparr>q_x = 50, q_y = 250, q_width = 50, q_height = 50, q_dy = - 4, q_gravity = 1\<rparr>,
      obstacles2 = [\<lparr>o_x = - 37, o_y = 430, o_width = 42, o_height = 40\<rparr>,
                    \<lparr>o_x = 420, o_y = 430, o_width = 55, o_height = 40\<rparr>],
      gameSpeed = 6,
      frame = 130,
      running2 = True,
      score2 = 1,
      isJumping = True\<rparr>"

section \<open>First implementation: the component over several sessions\<close>

text \<open>
  The component starts with \<open>useState(true)\<close>, \<open>useState(0)\<close>, the startup read of the
  high score and \<open>useState(false)\<close>; the first effect puts a fresh session state into
  \<open>gameStateRef\<close>, and \<open>lastTimeRef\<close> starts at 0.
\<close>

definition initial_component :: "storage \<Rightarrow> component" where
  "initial_component st =
     \<lparr>running_st = True, score_st = 0, highScore_st = initHighScore (Some st), paused_st = False\<rparr>"

definition mount :: "storage \<Rightarrow> world" where
  "mount st =
     \<lparr>gameStateRef = Some resetGameState, lastTimeRef = 0,
      react = initial_component st, localStorage = st\<rparr>"

text \<open>
  \<open>loop\<close> is defined inside an effect with the dependency list \<open>[paused]\<close>. The effect
  runs after the first render and again only when \<open>paused\<close> changes, so until then every
  frame reads the \<open>paused\<close>, \<open>score\<close> and \<open>highScore\<close> of the render in which the effect
  ran: \<open>setScore\<close>, \<open>setRunning\<close> and \<open>setHighScore\<close> change the component's state, not
  what the running loop reads. \<open>play\<close> is the component between two changes of
  \<open>paused\<close>: frames, and the key and touch handlers \<open>jump\<close> and \<open>restart\<close>, which work
  through the refs. Its first argument is what the loop's closure holds.
\<close>

datatype event = Frame tick | Jump | Restart

fun play :: "component \<Rightarrow> event list \<Rightarrow> world \<Rightarrow> world" where
  "play cap [] w = w"
| "play cap (Frame t # es) w = play cap es (fst (loop (t\<lparr>captured := cap\<rparr>) w))"
| "play cap (Jump # es) w = play cap es (jump w)"
| "play cap (Restart # es) w = play cap es (restart w)"

text \<open>
  \<open>n\<close> frames 40 ms apart from the time \<open>t0\<close>, on a canvas of 320 by 420 pixels at pixel
  ratio 1, with the given random draws and a store that accepts writes.
\<close>

definition frames :: "real \<Rightarrow> nat \<Rightarrow> draws \<Rightarrow> event list" where
  "frames t0 n d =
     map (\<lambda>k. Frame \<lparr>timestamp = t0 + 40 * real k, canvas_width = 320, canvas_height = 420,
                      devicePixelRatio = 1, random = d, setItem_fails = False,
                      captured = initial_component Map.empty\<rparr>) [0..<n]"

text \<open>
  The random draws of two sessions: in the first the obstacle is spawned far away (gap
  666), in the second at the smallest gap (360).
\<close>

definition far_draws :: draws where
  "far_draws = \<lparr>d_gap = 9 / 10, d_height = 1 / 2, d_width = 1 / 2\<rparr>"

definition near_draws :: draws where
  "near_draws = \<lparr>d_gap = 0, d_height = 1 / 2, d_width = 1 / 2\<rparr>"

text \<open>
  Two sessions without a jump: 45 frames after the mount, then a restart and 30 frames.
\<close>

definition first_session :: "event list" where
  "first_session = frames 1000 45 far_draws"

definition second_session :: "event list" where
  "second_session = Restart # frames 5000 30 near_draws"

declare natDigits.simps [simp del]

section \<open>The collision tests\<close>

lemma overlap_x_nonneg_iff:
  "0 \<le> r_width a \<Longrightarrow> 0 \<le> r_width b \<Longrightarrow>
   0 \<le> overlap_x a b \<longleftrightarrow> r_x b \<le> r_x a + r_width a \<and> r_x a \<le> r_x b + r_width b"
  by (auto simp: overlap_x_def min_def max_def)

lemma overlap_y_nonneg_iff:
  "0 \<le> r_height a \<Longrightarrow> 0 \<le> r_height b \<Longrightarrow>
   0 \<le> overlap_y a b \<longleftrightarrow> r_y b \<le> r_y a + r_height a \<and> r_y a \<le> r_y b + r_height b"
  by (auto simp: overlap_y_def min_def max_def)

lemma overlap_x_pos_iff:
  "0 < r_width a \<Longrightarrow> 0 < r_width b \<Longrightarrow>
   0 < overlap_x a b \<longleftrightarrow> r_x b < r_x a + r_width a \<and> r_x a < r_x b + r_width b"
  by (auto simp: overlap_x_def min_def max_def)

lemma overlap_y_pos_iff:
  "0 < r_height a \<Longrightarrow> 0 < r_height b \<Longrightarrow>
   0 < overlap_y a b \<longleftrightarrow> r_y b < r_y a + r_height a \<and> r_y a < r_y b + r_height b"
  by (auto simp: overlap_y_def min_def max_def)

text \<open>
  C1 (as stated, refuted). Two 10 by 10 rectangles side by side, the right edge of the
  first exactly on the left edge of the second: \<open>rectsCollide\<close> answers true, although
  the overlap on the x axis is zero and the claim asks for false.
\<close>

theorem rectsCollide_touching_counterexample:
  "rectsCollide \<lparr>r_x = 0, r_y = 0, r_width = 10, r_height = 10\<rparr>
                \<lparr>r_x = 10, r_y = 0, r_width = 10, r_height = 10\<rparr>
   \<and> r_x \<lparr>r_x = 0, r_y = 0, r_width = 10, r_height = 10\<rparr>
       + r_width \<lparr>r_x = 0, r_y = 0, r_width = 10, r_height = 10\<rparr>
     = r_x \<lparr>r_x = 10, r_y = 0, r_width = 10, r_height = 10\<rparr>
   \<and> overlap_x \<lparr>r_x = 0, r_y = 0, r_width = 10, r_height = 10\<rparr>
                \<lparr>r_x = 10, r_y = 0, r_width = 10, r_height = 10\<rparr> = 0
   \<and> \<not> spec_strict_overlap \<lparr>r_x = 0, r_y = 0, r_width = 10, r_height = 10\<rparr>
                            \<lparr>r_x = 10, r_y = 0, r_width = 10, r_height = 10\<rparr>"
  by (simp add: rectsCollide_def spec_strict_overlap_def overlap_x_def overlap_y_def)

text \<open>
  C1 (amended). For rectangles of non-negative width and height, \<open>rectsCollide\<close> is true
  exactly when the overlap is non-negative on both axes: positive overlap on both axes
  gives true, a gap on either axis gives false, and rectangles whose edges touch (zero
  overlap on one axis, no gap on the other) give true. The strict test, for which
  touching rectangles give false, is the inline test of the second implementation: on a
  player and an obstacle of positive width and height it is true exactly when the
  overlap is positive on both axes.
\<close>

theorem rectsCollide_closed_overlap:
  "(well_formed a \<and> well_formed b \<longrightarrow>
      (rectsCollide a b \<longleftrightarrow> closed_overlap a b) \<and>
      (spec_strict_overlap a b \<longrightarrow> rectsCollide a b) \<and>
      (overlap_x a b < 0 \<or> overlap_y a b < 0 \<longrightarrow> \<not> rectsCollide a b) \<and>
      (overlap_x a b = 0 \<and> 0 \<le> overlap_y a b \<longrightarrow> rectsCollide a b) \<and>
      (overlap_y a b = 0 \<and> 0 \<le> overlap_x a b \<longrightarrow> rectsCollide a b))
   \<and> (0 < q_width p \<and> 0 < q_height p \<and> 0 < o_width ob \<and> 0 < o_height ob \<longrightarrow>
      (collides2 p ob \<longleftrightarrow> spec_strict_overlap (rect_of_player2 p) (rect_of_obstacle ob)) \<and>
      (overlap_x (rect_of_player2 p) (rect_of_obstacle ob) = 0
         \<or> overlap_y (rect_of_player2 p) (rect_of_obstacle ob) = 0 \<longrightarrow> \<not> collides2 p ob))"
proof (intro conjI impI)
  assume wf: "well_formed a \<and> well_formed b"
  then have w: "0 \<le> r_width a" "0 \<le> r_width b" and h: "0 \<le> r_height a" "0 \<le> r_height b"
    by (simp_all add: well_formed_def)
  show eq: "rectsCollide a b \<longleftrightarrow> closed_overlap a b"
    unfolding closed_overlap_def overlap_x_nonneg_iff [OF w] overlap_y_nonneg_iff [OF h]
    by (auto simp: rectsCollide_def)
  { assume "spec_strict_overlap a b"
    then show "rectsCollide a b"
      unfolding eq by (simp add: spec_strict_overlap_def closed_overlap_def) }
  { assume "overlap_x a b < 0 \<or> overlap_y a b < 0"
    then show "\<not> rectsCollide a b"
      unfolding eq by (auto simp: closed_overlap_def) }
  { assume "overlap_x a b = 0 \<and> 0 \<le> overlap_y a b"
    then show "rectsCollide a b"
      unfolding eq by (simp add: closed_overlap_def) }
  { assume "overlap_y a b = 0 \<and> 0 \<le> overlap_x a b"
    then show "rectsCollide a b"
      unfolding eq by (simp add: closed_overlap_def) }
next
  let ?a = "rect_of_player2 p" and ?b = "rect_of_obstacle ob"
  assume pos: "0 < q_width p \<and> 0 < q_height p \<and> 0 < o_width ob \<and> 0 < o_height ob"
  then have w: "0 < r_width ?a" "0 < r_width ?b" and h: "0 < r_height ?a" "0 < r_height ?b"
    by (simp_all add: rect_of_player2_def rect_of_obstacle_def)
  show eq: "collides2 p ob \<longleftrightarrow> spec_strict_overlap ?a ?b"
    unfolding spec_strict_overlap_def overlap_x_pos_iff [OF w] overlap_y_pos_iff [OF h]
    by (auto simp: collides2_def rect_of_player2_def rect_of_obstacle_def)
  { assume "overlap_x ?a ?b = 0 \<or> overlap_y ?a ?b = 0"
    then show "\<not> collides2 p ob"
      unfolding eq by (auto simp: spec_strict_overlap_def) }
qed

theorem rectsCollide_closed_overlap_witness:
  "well_formed \<lparr>r_x = 0, r_y = 0, r_width = 10, r_height = 10\<rparr>
   \<and> well_formed \<lparr>r_x = 10, r_y = 5, r_width = 10, r_height = 10\<rparr>
   \<and> overlap_x \<lparr>r_x = 0, r_y = 0, r_width = 10, r_height = 10\<rparr>
                \<lparr>r_x = 10, r_y = 5, r_width = 10, r_height = 10\<rparr> = 0
   \<and> overlap_y \<lparr>r_x = 0, r_y = 0, r_width = 10, r_height = 10\<rparr>
                \<lparr>r_x = 10, r_y = 5, r_width = 10, r_height = 10\<rparr> = 5
   \<and> rectsCollide \<lparr>r_x = 0, r_y = 0, r_width = 10, r_height = 10\<rparr>
                   \<lparr>r_x = 10, r_y = 5, r_width = 10, r_height = 10\<rparr>
   \<and> \<not> collides2 \<lparr>q_x = 0, q_y = 0, q_width = 10, q_height = 10, q_dy = 0, q_gravity = 1\<rparr>
                  \<lparr>o_x = 10, o_y = 5, o_width = 10, o_height = 10\<rparr>"
  using rectsCollide_closed_overlap
    [of "\<lparr>r_x = 0, r_y = 0, r_width = 10, r_height = 10\<rparr>"
        "\<lparr>r_x = 10, r_y = 5, r_width = 10, r_height = 10\<rparr>"
        "\<lparr>q_x = 0, q_y = 0, q_width = 10, q_height = 10, q_dy = 0, q_gravity = 1\<rparr>"
        "\<lparr>o_x = 10, o_y = 5, o_width = 10, o_height = 10\<rparr>"]
  by (simp add: well_formed_def overlap_x_def overlap_y_def closed_overlap_def
      spec_strict_overlap_def rect_of_player2_def rect_of_obstacle_def)

section \<open>The update, step by step\<close>

lemma gameOver_state:
  "state (gameOver i c) = (state c)\<lparr>running := False\<rparr>"
  by (simp add: gameOver_def Let_def)

lemma collisionLoop_state:
  "state (collisionLoop i obs c) = state c \<or>
   state (collisionLoop i obs c) = (state c)\<lparr>running := False\<rparr>"
proof (induction obs arbitrary: c)
  case Nil
  then show ?case by simp
next
  case (Cons ob obs)
  show ?case
  proof (cases "rectsCollide (playerRect (player (state c))) (obstacleRect i ob)")
    case True
    with Cons.IH [of "gameOver i c"] show ?thesis
      by (auto simp: gameOver_state)
  next
    case False
    with Cons.IH [of c] show ?thesis
      by simp
  qed
qed

lemma collisionLoop_fields:
  "player (state (collisionLoop i obs c)) = player (state c)"
  "obstacles (state (collisionLoop i obs c)) = obstacles (state c)"
  "speed (state (collisionLoop i obs c)) = speed (state c)"
  "score (state (collisionLoop i obs c)) = score (state c)"
  "lastSpawnX (state (collisionLoop i obs c)) = lastSpawnX (state c)"
  "groundOffset (state (collisionLoop i obs c)) = groundOffset (state c)"
  using collisionLoop_state [of i obs c] by auto

lemma spawnStep_fields:
  "player (spawnStep i s) = player s"
  "speed (spawnStep i s) = speed s"
  "score (spawnStep i s) = score s"
  by (simp_all add: spawnStep_def spawnObstacle_def Let_def)

lemma update_player:
  "player (state (update i dt c)) =
     clampToGround (groundY i (player (state c))) (integrate dt (player (state c)))"
  by (simp add: update_def advance_def Let_def collisionLoop_fields advanceGround_def addScore_def
      spawnStep_fields dropOffscreen_def accelerate_def moveObstacles_def)

lemma update_speed:
  "speed (state (update i dt c)) = speed (state c) + obstacleAcceleration * dt"
  by (simp add: update_def advance_def Let_def collisionLoop_fields advanceGround_def addScore_def
      spawnStep_fields dropOffscreen_def accelerate_def moveObstacles_def)

lemma update_score:
  "score (state (update i dt c)) =
     score (state c) + \<lfloor>(speed (state c) + obstacleAcceleration * dt) * dt * (5 / 100)\<rfloor>"
  by (simp add: update_def advance_def Let_def collisionLoop_fields advanceGround_def addScore_def
      score_gain_def spawnStep_fields dropOffscreen_def accelerate_def moveObstacles_def)

lemma update_obstacles:
  "obstacles (state (update i dt c)) =
     obstacles (spawnStep i (dropOffscreen (moveObstacles dt (state c))))"
  by (simp add: update_def advance_def Let_def collisionLoop_fields advanceGround_def addScore_def
      spawnStep_def spawnObstacle_def spawn_due_def dropOffscreen_def accelerate_def
      moveObstacles_def)

lemma loop_updates:
  "gameStateRef w = Some s \<Longrightarrow> running s \<Longrightarrow> \<not> paused_st (captured i) \<Longrightarrow>
   gameStateRef (fst (loop i w))
     = Some (state (update i (frame_dt i w) \<lparr>state = s, ui = react w, store = localStorage w\<rparr>))"
  by (simp add: loop_def Let_def current_state_def)

lemma loop_skips:
  "gameStateRef w = Some s \<Longrightarrow> paused_st (captured i) \<or> \<not> running s \<Longrightarrow>
   fst (loop i w) = w\<lparr>lastTimeRef := timestamp i\<rparr>"
  by (auto simp: loop_def Let_def current_state_def)

lemma frame_dt_le: "frame_dt i w \<le> 40 / 1000"
  by (simp add: frame_dt_def Let_def)

lemma frame_dt_nonneg:
  "lastTimeRef w \<le> timestamp i \<Longrightarrow> 0 \<le> frame_dt i w"
  by (simp add: frame_dt_def Let_def)

lemma gameOver_idem: "gameOver i (gameOver i c) = gameOver i c"
  by (simp add: gameOver_def Let_def setItem_def)

lemma collisionLoop_gameOver:
  "collisionLoop i obs (gameOver i c) = gameOver i c"
proof (induction obs)
  case Nil
  then show ?case by simp
next
  case (Cons ob obs)
  then show ?case by (simp add: gameOver_idem)
qed

lemma collisionLoop_hit:
  "\<exists>ob \<in> set obs. rectsCollide (playerRect (player (state c))) (obstacleRect i ob) \<Longrightarrow>
   collisionLoop i obs c = gameOver i c"
proof (induction obs)
  case Nil
  then show ?case by simp
next
  case (Cons ob obs)
  show ?case
  proof (cases "rectsCollide (playerRect (player (state c))) (obstacleRect i ob)")
    case True
    then show ?thesis by (simp add: collisionLoop_gameOver)
  next
    case False
    with Cons show ?thesis by simp
  qed
qed

lemma collisionLoop_miss:
  "\<forall>ob \<in> set obs. \<not> rectsCollide (playerRect (player (state c))) (obstacleRect i ob) \<Longrightarrow>
   collisionLoop i obs c = c"
  by (induction obs) simp_all

lemma advance_store: "store (advance i dt c) = store c"
  by (simp add: advance_def Let_def)

lemma advance_highScore: "highScore_st (ui (advance i dt c)) = highScore_st (ui c)"
  by (simp add: advance_def Let_def)

lemma advance_running: "running (state (advance i dt c)) = running (state c)"
  by (simp add: advance_def Let_def advanceGround_def addScore_def spawnStep_def
      spawnObstacle_def dropOffscreen_def accelerate_def moveObstacles_def)

lemma update_fields:
  "player (state (update i dt c)) = player (state (advance i dt c))"
  "obstacles (state (update i dt c)) = obstacles (state (advance i dt c))"
  "score (state (update i dt c)) = score (state (advance i dt c))"
  by (simp_all add: update_def Let_def collisionLoop_fields)

section \<open>The player and the ground line\<close>

text \<open>
  C2. Take any world whose session is running and any frame that is not paused, so that
  the frame performs the physics update with the elapsed time \<open>dt\<close> of the frame, which
  is at most 40 milliseconds. After the frame the player's vertical position does not
  exceed the ground line. If the integrated position \<open>y + (vy + gravity * dt) * dt\<close>
  reaches or passes the ground line, the player is placed on the line with vertical
  velocity 0 and grounded set; otherwise the player keeps the integrated position and
  velocity. The bound needs no assumption on the sign of \<open>dt\<close>.
\<close>

theorem loop_player_not_below_ground:
  assumes "gameStateRef w = Some s" and "running s" and "\<not> paused_st (captured i)"
  shows "\<exists>s'. gameStateRef (fst (loop i w)) = Some s'
          \<and> frame_dt i w \<le> 40 / 1000
          \<and> groundY i (player s') = groundY i (player s)
          \<and> p_y (player s') \<le> groundY i (player s)
          \<and> (p_y (player s) + (p_vy (player s) + gravity * frame_dt i w) * frame_dt i w
                \<ge> groundY i (player s)
              \<longrightarrow> p_y (player s') = groundY i (player s) \<and> p_vy (player s') = 0
                  \<and> p_grounded (player s'))
          \<and> (p_y (player s) + (p_vy (player s) + gravity * frame_dt i w) * frame_dt i w
                < groundY i (player s)
              \<longrightarrow> p_y (player s')
                    = p_y (player s) + (p_vy (player s) + gravity * frame_dt i w) * frame_dt i w
                  \<and> p_vy (player s') = p_vy (player s) + gravity * frame_dt i w
                  \<and> p_grounded (player s') = p_grounded (player s))"
proof -
  let ?dt = "frame_dt i w"
  let ?c = "\<lparr>state = s, ui = react w, store = localStorage w\<rparr>"
  let ?s' = "state (update i ?dt ?c)"
  have ref: "gameStateRef (fst (loop i w)) = Some ?s'"
    using assms by (rule loop_updates)
  have pl: "player ?s' = clampToGround (groundY i (player s)) (integrate ?dt (player s))"
    by (simp add: update_player)
  have "frame_dt i w \<le> 40 / 1000"
    by (rule frame_dt_le)
  moreover have "groundY i (player ?s') = groundY i (player s)"
    unfolding pl by (simp add: groundY_def clampToGround_def integrate_def Let_def)
  moreover have "p_y (player ?s') \<le> groundY i (player s)"
    unfolding pl by (simp add: clampToGround_def)
  moreover have "p_y (player s) + (p_vy (player s) + gravity * ?dt) * ?dt \<ge> groundY i (player s)
      \<longrightarrow> p_y (player ?s') = groundY i (player s) \<and> p_vy (player ?s') = 0
          \<and> p_grounded (player ?s')"
    unfolding pl by (simp add: clampToGround_def integrate_def Let_def)
  moreover have "p_y (player s) + (p_vy (player s) + gravity * ?dt) * ?dt < groundY i (player s)
      \<longrightarrow> p_y (player ?s') = p_y (player s) + (p_vy (player s) + gravity * ?dt) * ?dt
          \<and> p_vy (player ?s') = p_vy (player s) + gravity * ?dt
          \<and> p_grounded (player ?s') = p_grounded (player s)"
    unfolding pl by (simp add: clampToGround_def integrate_def Let_def)
  ultimately show ?thesis
    using ref by blast
qed

theorem loop_player_not_below_ground_witness:
  "gameStateRef falling_world = Some falling_state \<and> running falling_state
   \<and> \<not> paused_st (captured example_tick)
   \<and> (\<exists>s'. gameStateRef (fst (loop example_tick falling_world)) = Some s'
          \<and> p_y (player s') = 280 \<and> p_vy (player s') = 0 \<and> p_grounded (player s'))"
proof -
  have h1: "gameStateRef falling_world = Some falling_state"
    by (simp add: falling_world_def)
  have h2: "running falling_state"
    by (simp add: falling_state_def resetGameState_def)
  have h3: "\<not> paused_st (captured example_tick)"
    by (simp add: example_tick_def)
  have dt: "frame_dt example_tick falling_world = 2 / 125"
    by (simp add: frame_dt_def example_tick_def falling_world_def example_world_def)
  have gy: "groundY example_tick (player falling_state) = 280"
    by (simp add: groundY_def example_tick_def falling_state_def resetGameState_def dpr_or_1_def
        groundHeight_def player_h_def player_startYOffset_def)
  have y: "p_y (player falling_state) = 279" and vy: "p_vy (player falling_state) = 100"
    by (simp_all add: falling_state_def)
  from loop_player_not_below_ground [OF h1 h2 h3] obtain s' where
    ref: "gameStateRef (fst (loop example_tick falling_world)) = Some s'" and
    land: "p_y (player falling_state)
             + (p_vy (player falling_state) + gravity * frame_dt example_tick falling_world)
               * frame_dt example_tick falling_world
           \<ge> groundY example_tick (player falling_state)
           \<longrightarrow> p_y (player s') = groundY example_tick (player falling_state)
               \<and> p_vy (player s') = 0 \<and> p_grounded (player s')"
    by blast
  from land have "p_y (player s') = 280 \<and> p_vy (player s') = 0 \<and> p_grounded (player s')"
    unfolding dt gy y vy by (simp add: gravity_def)
  with ref h1 h2 h3 show ?thesis
    by blast
qed

section \<open>The obstacle generator\<close>

text \<open>
  C3. With the random draw \<open>r\<close> for the gap in \<open>[0, 1)\<close>, as \<open>Math.random\<close> returns it, a
  spawn appends exactly one obstacle, at \<open>x = canvas.width + gap\<close> with
  \<open>gap = 360 + r * (700 - 360)\<close>, the image of the draw under an increasing affine map,
  so \<open>360 \<le> gap < 700\<close>. In a physics update the spawn happens exactly when the
  sequence, after the obstacles have moved and the off-screen ones have been dropped,
  is empty or its last obstacle has \<open>x < canvas.width - 1200\<close>; otherwise the sequence
  is left as it is.
\<close>

theorem spawn_position_and_trigger:
  assumes "0 \<le> d_gap (random i)" and "d_gap (random i) < 1"
  shows "(\<exists>ob. obstacles (spawnObstacle (random i) (canvas_width i) s) = obstacles s @ [ob]
              \<and> o_x ob = canvas_width i + spawn_gap (random i)
              \<and> lastSpawnX (spawnObstacle (random i) (canvas_width i) s) = o_x ob)
       \<and> spawn_gap (random i) = 360 + d_gap (random i) * 340
       \<and> obstacleMinGap = 360 \<and> obstacleMaxGap = 700 \<and> spawnEarlyTime = 1200
       \<and> obstacleMinGap \<le> spawn_gap (random i) \<and> spawn_gap (random i) < obstacleMaxGap
       \<and> (let before = obstacles (dropOffscreen (moveObstacles dt (state c)));
               after = obstacles (state (update i dt c))
           in if before = [] \<or> o_x (last before) < canvas_width i - spawnEarlyTime
              then \<exists>ob. after = before @ [ob] \<and> o_x ob = canvas_width i + spawn_gap (random i)
              else after = before)"
proof -
  have gap: "spawn_gap (random i) = 360 + d_gap (random i) * 340"
    by (simp add: spawn_gap_def obstacleMinGap_def obstacleMaxGap_def)
  have spawn: "\<exists>ob. obstacles (spawnObstacle (random i) (canvas_width i) t) = obstacles t @ [ob]
              \<and> o_x ob = canvas_width i + spawn_gap (random i)
              \<and> lastSpawnX (spawnObstacle (random i) (canvas_width i) t) = o_x ob" for t
    by (simp add: spawnObstacle_def Let_def)
  have range: "obstacleMinGap \<le> spawn_gap (random i) \<and> spawn_gap (random i) < obstacleMaxGap"
    using assms unfolding gap by (simp add: obstacleMinGap_def obstacleMaxGap_def)
  have trig: "let before = obstacles (dropOffscreen (moveObstacles dt (state c)));
               after = obstacles (state (update i dt c))
           in if before = [] \<or> o_x (last before) < canvas_width i - spawnEarlyTime
              then \<exists>ob. after = before @ [ob] \<and> o_x ob = canvas_width i + spawn_gap (random i)
              else after = before"
    unfolding update_obstacles Let_def
    by (simp add: spawnStep_def spawn_due_def spawnObstacle_def Let_def)
  show ?thesis
    using gap spawn [of s] range trig
    by (simp add: obstacleMinGap_def obstacleMaxGap_def spawnEarlyTime_def)
qed

theorem spawn_position_and_trigger_witness:
  "0 \<le> d_gap (random example_tick) \<and> d_gap (random example_tick) < 1
   \<and> spawn_gap (random example_tick) = 530
   \<and> obstacles (dropOffscreen (moveObstacles (2 / 125) resetGameState)) = []
   \<and> (\<exists>ob. obstacles (state (update example_tick (2 / 125)
                \<lparr>state = resetGameState, ui = react example_world, store = Map.empty\<rparr>)) = [ob]
           \<and> o_x ob = 896 + 530)"
proof -
  have h1: "0 \<le> d_gap (random example_tick)" and h2: "d_gap (random example_tick) < 1"
    by (simp_all add: example_tick_def)
  have before: "obstacles (dropOffscreen (moveObstacles (2 / 125) resetGameState)) = []"
    by (simp add: dropOffscreen_def moveObstacles_def resetGameState_def)
  have cw: "canvas_width example_tick = 896"
    by (simp add: example_tick_def)
  note inst = spawn_position_and_trigger [OF h1 h2, of resetGameState "2 / 125"
      "\<lparr>state = resetGameState, ui = react example_world, store = Map.empty\<rparr>"]
  from inst have gap340: "spawn_gap (random example_tick) = 360 + d_gap (random example_tick) * 340"
    by blast
  then have gap: "spawn_gap (random example_tick) = 530"
    by (simp add: example_tick_def)
  from inst have "let before = obstacles (dropOffscreen (moveObstacles (2 / 125)
                        (state \<lparr>state = resetGameState, ui = react example_world,
                                 store = Map.empty\<rparr>)));
                      after = obstacles (state (update example_tick (2 / 125)
                        \<lparr>state = resetGameState, ui = react example_world, store = Map.empty\<rparr>))
                  in if before = [] \<or> o_x (last before) < canvas_width example_tick - spawnEarlyTime
                     then \<exists>ob. after = before @ [ob]
                            \<and> o_x ob = canvas_width example_tick + spawn_gap (random example_tick)
                     else after = before"
    by (elim conjE)
  then have "\<exists>ob. obstacles (state (update example_tick (2 / 125)
                \<lparr>state = resetGameState, ui = react example_world, store = Map.empty\<rparr>)) = [ob]
           \<and> o_x ob = canvas_width example_tick + spawn_gap (random example_tick)"
    by (simp add: before Let_def)
  then show ?thesis
    unfolding gap cw using h1 h2 before by simp
qed

section \<open>The actions\<close>

text \<open>
  C7. When the session's running flag is set and the player is grounded, \<open>jump\<close> sets the
  vertical velocity to the upward impulse \<open>-820\<close> and clears grounded, and changes
  nothing else. When the flag is not set or the player is airborne, and also when there
  is no session yet, \<open>jump\<close> returns the world unchanged; it has no failing branch. The
  pause flag is not read by \<open>jump\<close>.
\<close>

theorem jump_grounded_or_noop:
  "(gameStateRef w = Some s \<and> running s \<and> p_grounded (player s) \<longrightarrow>
      jump w = w\<lparr>gameStateRef :=
                  Some (s\<lparr>player := (player s)\<lparr>p_vy := - 820, p_grounded := False\<rparr>\<rparr>)\<rparr>
      \<and> (\<exists>s'. gameStateRef (jump w) = Some s' \<and> p_vy (player s') = - 820
               \<and> p_vy (player s') < 0 \<and> \<not> p_grounded (player s')))
   \<and> (gameStateRef w = Some s \<and> (\<not> running s \<or> \<not> p_grounded (player s)) \<longrightarrow> jump w = w)
   \<and> (gameStateRef w = None \<longrightarrow> jump w = w)"
  by (auto simp: jump_def)

theorem jump_grounded_or_noop_witness:
  "gameStateRef falling_world = Some falling_state \<and> running falling_state
   \<and> \<not> p_grounded (player falling_state)
   \<and> jump falling_world = falling_world
   \<and> gameStateRef (falling_world\<lparr>gameStateRef :=
         Some (falling_state\<lparr>player := (player falling_state)\<lparr>p_grounded := True\<rparr>\<rparr>)\<rparr>)
       = Some (falling_state\<lparr>player := (player falling_state)\<lparr>p_grounded := True\<rparr>\<rparr>)
   \<and> (\<exists>s'. gameStateRef (jump (falling_world\<lparr>gameStateRef :=
         Some (falling_state\<lparr>player := (player falling_state)\<lparr>p_grounded := True\<rparr>\<rparr>)\<rparr>)) = Some s'
          \<and> p_vy (player s') = - 820 \<and> \<not> p_grounded (player s'))"
proof -
  let ?g = "falling_state\<lparr>player := (player falling_state)\<lparr>p_grounded := True\<rparr>\<rparr>"
  let ?w = "falling_world\<lparr>gameStateRef := Some ?g\<rparr>"
  have h1: "gameStateRef falling_world = Some falling_state"
    by (simp add: falling_world_def)
  have h2: "running falling_state" and h3: "\<not> p_grounded (player falling_state)"
    by (simp_all add: falling_state_def resetGameState_def)
  have g1: "gameStateRef ?w = Some ?g" and g2: "running ?g" and g3: "p_grounded (player ?g)"
    using h2 by simp_all
  from jump_grounded_or_noop [of falling_world falling_state] h1 h3
  have noop: "jump falling_world = falling_world"
    by blast
  from jump_grounded_or_noop [of ?w ?g] g1 g2 g3
  have "\<exists>s'. gameStateRef (jump ?w) = Some s' \<and> p_vy (player s') = - 820
           \<and> \<not> p_grounded (player s')"
    by blast
  with h1 h2 h3 noop g1 show ?thesis
    by blast
qed

text \<open>
  C8. From any world, \<open>restart\<close> installs the default session state: the player at
  \<open>x = 80\<close>, \<open>y = 0\<close> with vertical velocity 0 and not grounded, no obstacles, the speed
  at the starting speed 480, the score 0 and the running flag set. It also resets the
  displayed score to 0, sets the component's running flag and clears the frame
  timestamp. The pause flag, the high score and the store are left as they were.
\<close>

theorem restart_resets_session:
  "gameStateRef (restart w) = Some resetGameState
   \<and> player resetGameState
       = \<lparr>p_x = 80, p_y = 0, p_vy = 0, p_width = 44, p_height = 44, p_grounded = False\<rparr>
   \<and> obstacles resetGameState = []
   \<and> speed resetGameState = obstacleSpeedStart \<and> obstacleSpeedStart = 480
   \<and> score resetGameState = 0
   \<and> running resetGameState
   \<and> groundOffset resetGameState = 0
   \<and> score_st (react (restart w)) = 0
   \<and> running_st (react (restart w))
   \<and> lastTimeRef (restart w) = 0
   \<and> paused_st (react (restart w)) = paused_st (react w)
   \<and> highScore_st (react (restart w)) = highScore_st (react w)
   \<and> localStorage (restart w) = localStorage w"
  by (simp add: restart_def resetGameState_def obstacleSpeedStart_def player_startX_def
      player_w_def player_h_def)

section \<open>Frames that skip the update\<close>

text \<open>
  C6. Take a world with a session and a frame that is paused, or whose session is not
  running. The frame leaves the session state as it is (player, obstacle sequence,
  speed, score, parallax offset and every other field), and with it the component's
  state and the store; only the frame timestamp is recorded. The frame is still drawn:
  the drawing calls are those of the renderer on the unchanged session state, starting
  with the clearing of the canvas.
\<close>

theorem loop_skips_update_when_paused_or_over:
  assumes "gameStateRef w = Some s" and "paused_st (captured i) \<or> \<not> running s"
  shows "gameStateRef (fst (loop i w)) = Some s
       \<and> fst (loop i w) = w\<lparr>lastTimeRef := timestamp i\<rparr>
       \<and> react (fst (loop i w)) = react w
       \<and> localStorage (fst (loop i w)) = localStorage w
       \<and> snd (loop i w) = render i s
       \<and> (\<exists>rest. snd (loop i w) = ClearRect 0 0 (canvas_width i) (canvas_height i) # rest)"
proof -
  have skip: "fst (loop i w) = w\<lparr>lastTimeRef := timestamp i\<rparr>"
    using assms by (rule loop_skips)
  have drawn: "snd (loop i w) = render i s"
    using assms by (auto simp: loop_def Let_def current_state_def)
  have "\<exists>rest. render i s = ClearRect 0 0 (canvas_width i) (canvas_height i) # rest"
    by (simp add: render_def Let_def)
  with skip drawn assms(1) show ?thesis
    by simp
qed

theorem loop_skips_update_when_paused_or_over_witness:
  "gameStateRef falling_world = Some falling_state
   \<and> paused_st (captured (example_tick\<lparr>captured := (captured example_tick)\<lparr>paused_st := True\<rparr>\<rparr>))
   \<and> gameStateRef (fst (loop (example_tick\<lparr>captured := (captured example_tick)\<lparr>paused_st := True\<rparr>\<rparr>)
                     falling_world)) = Some falling_state
   \<and> lastTimeRef (fst (loop (example_tick\<lparr>captured := (captured example_tick)\<lparr>paused_st := True\<rparr>\<rparr>)
                     falling_world)) = 1016"
proof -
  let ?i = "example_tick\<lparr>captured := (captured example_tick)\<lparr>paused_st := True\<rparr>\<rparr>"
  have h1: "gameStateRef falling_world = Some falling_state"
    by (simp add: falling_world_def)
  have h2: "paused_st (captured ?i) \<or> \<not> running falling_state"
    by simp
  from loop_skips_update_when_paused_or_over [OF h1 h2]
  have "gameStateRef (fst (loop ?i falling_world)) = Some falling_state"
    and "fst (loop ?i falling_world) = falling_world\<lparr>lastTimeRef := timestamp ?i\<rparr>"
    by blast+
  then show ?thesis
    using h1 h2 by (simp add: example_tick_def)
qed

section \<open>Score and speed over a run of frames\<close>

lemma loop_lastTimeRef: "lastTimeRef (fst (loop i w)) = timestamp i"
  by (simp add: loop_def Let_def)

lemma loop_current_state:
  "current_state (fst (loop i w)) = current_state w \<or>
   current_state (fst (loop i w))
     = state (update i (frame_dt i w)
         \<lparr>state = current_state w, ui = react w, store = localStorage w\<rparr>)"
  by (simp add: loop_def Let_def current_state_def)

lemma score_gain_nonneg:
  assumes "0 \<le> dt" and "0 \<le> sp"
  shows "0 \<le> \<lfloor>(sp + obstacleAcceleration * dt) * dt * (5 / 100)\<rfloor>"
proof -
  have "0 \<le> sp + obstacleAcceleration * dt"
    using assms by (simp add: obstacleAcceleration_def)
  then have "0 \<le> (sp + obstacleAcceleration * dt) * dt * (5 / 100)"
    using assms(1) by simp
  then show ?thesis
    by simp
qed

lemma loop_step_mono:
  assumes clock: "lastTimeRef w \<le> timestamp i" and sp: "0 \<le> speed (current_state w)"
  shows "score (current_state w) \<le> score (current_state (fst (loop i w)))
       \<and> speed (current_state w) \<le> speed (current_state (fst (loop i w)))"
proof -
  let ?dt = "frame_dt i w"
  let ?c = "\<lparr>state = current_state w, ui = react w, store = localStorage w\<rparr>"
  have dt: "0 \<le> ?dt"
    using clock by (rule frame_dt_nonneg)
  have "score (current_state w) \<le> score (state (update i ?dt ?c))"
    using score_gain_nonneg [OF dt sp] by (simp add: update_score)
  moreover have "speed (current_state w) \<le> speed (state (update i ?dt ?c))"
    using dt by (simp add: update_speed obstacleAcceleration_def)
  ultimately show ?thesis
    using loop_current_state [of i w] by auto
qed

lemma run_mono:
  "sorted (lastTimeRef w # map timestamp ts) \<Longrightarrow> 0 \<le> speed (current_state w) \<Longrightarrow>
   score (current_state w) \<le> score (current_state (run ts w))
   \<and> speed (current_state w) \<le> speed (current_state (run ts w))"
proof (induction ts arbitrary: w)
  case Nil
  then show ?case by simp
next
  case (Cons i ts)
  let ?w = "fst (loop i w)"
  from Cons.prems(1) have clock: "lastTimeRef w \<le> timestamp i"
    and rest: "sorted (timestamp i # map timestamp ts)"
    by simp_all
  from loop_step_mono [OF clock Cons.prems(2)]
  have step: "score (current_state w) \<le> score (current_state ?w)"
    "speed (current_state w) \<le> speed (current_state ?w)"
    by simp_all
  from rest have "sorted (lastTimeRef ?w # map timestamp ts)"
    by (simp add: loop_lastTimeRef)
  moreover from step(2) Cons.prems(2) have "0 \<le> speed (current_state ?w)"
    by simp
  ultimately have "score (current_state ?w) \<le> score (current_state (run ts ?w))
       \<and> speed (current_state ?w) \<le> speed (current_state (run ts ?w))"
    by (rule Cons.IH)
  with step show ?case
    by simp
qed

lemma run_append: "run (ts1 @ ts2) w = run ts2 (run ts1 w)"
  by (induction ts1 arbitrary: w) simp_all

lemma run_lastTimeRef:
  "lastTimeRef (run ts w) = last (lastTimeRef w # map timestamp ts)"
proof (induction ts arbitrary: w)
  case Nil
  then show ?case by simp
next
  case (Cons i ts)
  then show ?case by (simp add: loop_lastTimeRef)
qed

lemma sorted_from_last:
  "sorted (xs @ ys) \<Longrightarrow> xs \<noteq> [] \<Longrightarrow> sorted (last xs # ys)"
  by (induction xs) (auto simp: sorted_append)

text \<open>
  C9. Let a session run through any sequence of frames whose timestamps do not decrease
  (as the animation callback delivers them), starting from a state of non-negative
  speed (a session starts at speed 480), paused frames included. Then at any point of
  the sequence the score and the speed are at least what they were at any earlier
  point. In a single update with elapsed time \<open>dt \<ge> 0\<close> the speed grows by \<open>20 * dt\<close>
  and the score by \<open>floor(speed * dt * 0.05)\<close>, taken at the new speed, which is not
  negative.
\<close>

theorem score_and_speed_nondecreasing:
  assumes "sorted (lastTimeRef w # map timestamp (ts1 @ ts2))"
    and "0 \<le> speed (current_state w)"
  shows "score (current_state (run ts1 w)) \<le> score (current_state (run (ts1 @ ts2) w))
       \<and> speed (current_state (run ts1 w)) \<le> speed (current_state (run (ts1 @ ts2) w))
       \<and> (\<forall>i dt c. 0 \<le> dt \<and> 0 \<le> speed (state c) \<longrightarrow>
             speed (state (update i dt c)) = speed (state c) + 20 * dt
             \<and> score (state (update i dt c))
                 = score (state c) + \<lfloor>speed (state (update i dt c)) * dt * (5 / 100)\<rfloor>
             \<and> 0 \<le> \<lfloor>speed (state (update i dt c)) * dt * (5 / 100)\<rfloor>)"
proof -
  let ?w1 = "run ts1 w"
  from assms(1) have s1: "sorted (lastTimeRef w # map timestamp ts1)"
    by (simp add: sorted_append)
  from run_mono [OF s1 assms(2)] assms(2) have sp1: "0 \<le> speed (current_state ?w1)"
    by simp
  have "sorted ((lastTimeRef w # map timestamp ts1) @ map timestamp ts2)"
    using assms(1) by simp
  then have "sorted (last (lastTimeRef w # map timestamp ts1) # map timestamp ts2)"
    by (rule sorted_from_last) simp
  then have s2: "sorted (lastTimeRef ?w1 # map timestamp ts2)"
    by (simp only: run_lastTimeRef)
  from run_mono [OF s2 sp1]
  have seq: "score (current_state ?w1) \<le> score (current_state (run (ts1 @ ts2) w))
       \<and> speed (current_state ?w1) \<le> speed (current_state (run (ts1 @ ts2) w))"
    by (simp add: run_append)
  have one: "\<forall>i dt c. 0 \<le> dt \<and> 0 \<le> speed (state c) \<longrightarrow>
             speed (state (update i dt c)) = speed (state c) + 20 * dt
             \<and> score (state (update i dt c))
                 = score (state c) + \<lfloor>speed (state (update i dt c)) * dt * (5 / 100)\<rfloor>
             \<and> 0 \<le> \<lfloor>speed (state (update i dt c)) * dt * (5 / 100)\<rfloor>"
  proof (intro allI impI)
    fix i :: tick and dt :: real and c :: session
    assume h: "0 \<le> dt \<and> 0 \<le> speed (state c)"
    have sp: "speed (state (update i dt c)) = speed (state c) + obstacleAcceleration * dt"
      by (rule update_speed)
    have "0 \<le> \<lfloor>(speed (state c) + obstacleAcceleration * dt) * dt * (5 / 100)\<rfloor>"
      using h by (intro score_gain_nonneg) simp_all
    then show "speed (state (update i dt c)) = speed (state c) + 20 * dt
             \<and> score (state (update i dt c))
                 = score (state c) + \<lfloor>speed (state (update i dt c)) * dt * (5 / 100)\<rfloor>
             \<and> 0 \<le> \<lfloor>speed (state (update i dt c)) * dt * (5 / 100)\<rfloor>"
      unfolding sp by (simp add: update_score obstacleAcceleration_def)
  qed
  from seq one show ?thesis
    by blast
qed

theorem score_and_speed_nondecreasing_witness:
  "sorted (lastTimeRef fast_world # map timestamp ([example_tick] @ [later_tick]))
   \<and> 0 \<le> speed (current_state fast_world)
   \<and> score (current_state (run [example_tick] fast_world))
       \<le> score (current_state (run ([example_tick] @ [later_tick]) fast_world))
   \<and> score (current_state (run [example_tick] fast_world)) = 0
   \<and> score (current_state (run ([example_tick] @ [later_tick]) fast_world)) = 2
   \<and> speed (current_state (run [example_tick] fast_world))
       \<le> speed (current_state (run ([example_tick] @ [later_tick]) fast_world))"
proof -
  have h1: "sorted (lastTimeRef fast_world # map timestamp ([example_tick] @ [later_tick]))"
    by (simp add: fast_world_def example_world_def example_tick_def later_tick_def)
  have h2: "0 \<le> speed (current_state fast_world)"
    by (simp add: fast_world_def current_state_def)
  have v1: "score (current_state (run [example_tick] fast_world)) = 0"
    by code_simp
  have v2: "score (current_state (run ([example_tick] @ [later_tick]) fast_world)) = 2"
    by code_simp
  from score_and_speed_nondecreasing [OF h1 h2] h1 h2 v1 v2 show ?thesis
    by blast
qed

section \<open>Collision and the high score\<close>

text \<open>
  What one frame does with a collision. Take a frame that runs the update, and the
  session state \<open>s'\<close> it ends with. If the player's rectangle collides with the
  rectangle of some obstacle, the session is marked not running (and so is the
  component), and later frames leave the session state as it is. The score is compared
  with the \<open>highScore\<close> that the loop's closure holds: if the score strictly exceeds
  it, the store's entry for the high score key becomes the text of the score and the
  component's high score becomes the score; if the write throws, the store stays as it
  was and the component's high score still becomes the score. If the score does not
  exceed it, neither changes. Only where the closure's value is what the startup read
  yields on the store as it is, this is a comparison with the persisted value. Without
  a collision the session keeps running and the store and the high score are
  untouched. Several colliding obstacles in one frame give the same result as one.
\<close>

lemma collision_frame_outcome:
  assumes "gameStateRef w = Some s" and "running s" and "\<not> paused_st (captured i)"
    and "gameStateRef (fst (loop i w)) = Some s'"
  shows "((\<exists>ob \<in> set (obstacles s'). rectsCollide (playerRect (player s')) (obstacleRect i ob)) \<longrightarrow>
            \<not> running s' \<and> \<not> running_st (react (fst (loop i w)))
            \<and> (\<forall>j. gameStateRef (fst (loop j (fst (loop i w)))) = Some s')
            \<and> (js_gt (Fin (of_int (score s'))) (highScore_st (captured i)) \<longrightarrow>
                  highScore_st (react (fst (loop i w))) = Fin (of_int (score s'))
                  \<and> (\<not> setItem_fails i \<longrightarrow>
                        localStorage (fst (loop i w))
                          = (localStorage w)(highscore_key \<mapsto> String_int (score s')))
                  \<and> (setItem_fails i \<longrightarrow> localStorage (fst (loop i w)) = localStorage w))
            \<and> (\<not> js_gt (Fin (of_int (score s'))) (highScore_st (captured i)) \<longrightarrow>
                  highScore_st (react (fst (loop i w))) = highScore_st (react w)
                  \<and> localStorage (fst (loop i w)) = localStorage w)
            \<and> (highScore_st (captured i) = initHighScore (Some (localStorage w))
                 \<and> \<not> setItem_fails i \<longrightarrow>
                  (if js_gt (Fin (of_int (score s'))) (initHighScore (Some (localStorage w)))
                   then localStorage (fst (loop i w))
                          = (localStorage w)(highscore_key \<mapsto> String_int (score s'))
                   else localStorage (fst (loop i w)) = localStorage w)))
       \<and> ((\<forall>ob \<in> set (obstacles s'). \<not> rectsCollide (playerRect (player s')) (obstacleRect i ob)) \<longrightarrow>
            running s'
            \<and> highScore_st (react (fst (loop i w))) = highScore_st (react w)
            \<and> localStorage (fst (loop i w)) = localStorage w)"
proof -
  let ?c0 = "\<lparr>state = s, ui = react w, store = localStorage w\<rparr>"
  let ?c1 = "advance i (frame_dt i w) ?c0"
  let ?c = "update i (frame_dt i w) ?c0"
  let ?w = "fst (loop i w)"
  let ?hit = "\<lambda>t. \<exists>ob \<in> set (obstacles t). rectsCollide (playerRect (player t)) (obstacleRect i ob)"
  have w': "gameStateRef ?w = Some (state ?c)" "react ?w = ui ?c" "localStorage ?w = store ?c"
    using assms(1-3) by (simp_all add: loop_def Let_def current_state_def)
  with assms(4) have s': "s' = state ?c"
    by simp
  have same: "player s' = player (state ?c1)" "obstacles s' = obstacles (state ?c1)"
    "score s' = score (state ?c1)"
    unfolding s' by (simp_all add: update_fields)
  have upd: "?c = collisionLoop i (obstacles (state ?c1)) ?c1"
    by (simp add: update_def Let_def)
  have c1: "store ?c1 = localStorage w" "highScore_st (ui ?c1) = highScore_st (react w)"
    "running (state ?c1)"
    using assms(2) by (simp_all add: advance_store advance_highScore advance_running)
  show ?thesis
  proof (intro conjI impI)
    assume hit: "?hit s'"
    then have "?hit (state ?c1)"
      unfolding same .
    then have over: "?c = gameOver i ?c1"
      unfolding upd by (rule collisionLoop_hit)
    show nr: "\<not> running s'"
      unfolding s' over by (simp add: gameOver_state)
    show "\<not> running_st (react ?w)"
      unfolding w' over by (simp add: gameOver_def Let_def)
    show "\<forall>j. gameStateRef (fst (loop j ?w)) = Some s'"
    proof
      fix j
      have "fst (loop j ?w) = ?w\<lparr>lastTimeRef := timestamp j\<rparr>"
        using assms(4) nr by (intro loop_skips) (assumption, blast)
      then show "gameStateRef (fst (loop j ?w)) = Some s'"
        using assms(4) by simp
    qed
    { assume gt: "js_gt (Fin (of_int (score s'))) (highScore_st (captured i))"
      then have gt1: "js_gt (Fin (of_int (score (state ?c1)))) (highScore_st (captured i))"
        unfolding same .
      show "highScore_st (react ?w) = Fin (of_int (score s'))"
        unfolding w' over same using gt1 by (simp add: gameOver_def Let_def)
      { assume "\<not> setItem_fails i"
        then show "localStorage ?w = (localStorage w)(highscore_key \<mapsto> String_int (score s'))"
          unfolding w' over same using gt1 c1(1)
          by (simp add: gameOver_def Let_def setItem_def) }
      { assume "setItem_fails i"
        then show "localStorage ?w = localStorage w"
          unfolding w' over using gt1 c1(1)
          by (simp add: gameOver_def Let_def setItem_def) } }
    { assume ngt: "\<not> js_gt (Fin (of_int (score s'))) (highScore_st (captured i))"
      then have ngt1: "\<not> js_gt (Fin (of_int (score (state ?c1)))) (highScore_st (captured i))"
        unfolding same .
      show "highScore_st (react ?w) = highScore_st (react w)"
        unfolding w' over using ngt1 c1(2) by (simp add: gameOver_def Let_def)
      show "localStorage ?w = localStorage w"
        unfolding w' over using ngt1 c1(1) by (simp add: gameOver_def Let_def) }
    { assume sync: "highScore_st (captured i) = initHighScore (Some (localStorage w))
                 \<and> \<not> setItem_fails i"
      have "if js_gt (Fin (of_int (score (state ?c1)))) (highScore_st (captured i))
            then store (gameOver i ?c1)
                   = (localStorage w)(highscore_key \<mapsto> String_int (score (state ?c1)))
            else store (gameOver i ?c1) = localStorage w"
        using sync c1(1) by (simp add: gameOver_def Let_def setItem_def)
      then show "if js_gt (Fin (of_int (score s'))) (initHighScore (Some (localStorage w)))
                 then localStorage ?w = (localStorage w)(highscore_key \<mapsto> String_int (score s'))
                 else localStorage ?w = localStorage w"
        unfolding w' over same using sync by simp }
  next
    assume miss: "\<forall>ob \<in> set (obstacles s'). \<not> rectsCollide (playerRect (player s')) (obstacleRect i ob)"
    then have "\<forall>ob \<in> set (obstacles (state ?c1)).
        \<not> rectsCollide (playerRect (player (state ?c1))) (obstacleRect i ob)"
      unfolding same .
    then have keep: "?c = ?c1"
      unfolding upd by (rule collisionLoop_miss)
    show "running s'"
      unfolding s' keep by (rule c1(3))
    show "highScore_st (react ?w) = highScore_st (react w)"
      unfolding w' keep by (rule c1(2))
    show "localStorage ?w = localStorage w"
      unfolding w' keep by (rule c1(1))
  qed
qed

subsection \<open>Single frames in closed form\<close>

text \<open>
  The first frame of a session: the timestamp ref is 0, so the elapsed time is 0, and
  the empty obstacle sequence makes the frame spawn. Then the collision loop looks at
  the one new obstacle.
\<close>

lemma first_frame:
  assumes unpaused: "\<not> paused_st (captured i)" and t: "timestamp i \<noteq> 0"
  shows "fst (loop i \<lparr>gameStateRef = Some \<lparr>player = p, obstacles = [], lastSpawnX = lx,
                         speed = sp, score = sc, running = True, groundOffset = go\<rparr>,
                      lastTimeRef = 0, react = r, localStorage = st\<rparr>)
    = (let ob = \<lparr>o_x = canvas_width i + spawn_gap (random i), o_y = 0,
                 o_width = 28 + d_width (random i) * 48, o_height = 36 + d_height (random i) * 64\<rparr>;
           s' = \<lparr>player = clampToGround (groundY i p) (integrate 0 p), obstacles = [ob],
                 lastSpawnX = o_x ob, speed = sp, score = sc, running = True,
                 groundOffset = js_rem go 60\<rparr>;
           c1 = \<lparr>state = s',
                 ui = (if sc > score_st (captured i) then r\<lparr>score_st := sc\<rparr> else r),
                 store = st\<rparr>;
           c2 = (if rectsCollide (playerRect (player s')) (obstacleRect i ob)
                 then gameOver i c1 else c1)
       in \<lparr>gameStateRef = Some (state c2), lastTimeRef = timestamp i, react = ui c2,
           localStorage = store c2\<rparr>)"
  using assms
  by (simp add: loop_def frame_dt_def current_state_def update_def advance_def Let_def
      advanceGround_def addScore_def score_gain_def spawnStep_def spawn_due_def
      spawnObstacle_def dropOffscreen_def accelerate_def moveObstacles_def)

text \<open>
  A frame 40 ms after the previous one, in a running session with one obstacle that
  after its move is not yet dropped and not yet followed by a spawn.
\<close>

lemma one_obstacle_frame:
  assumes unpaused: "\<not> paused_st (captured i)"
    and clock: "l \<noteq> 0" "timestamp i - l = 40"
    and kept: "- 100 < x - sp / 25 + ow"
    and no_spawn: "\<not> x - sp / 25 < canvas_width i - 1200"
  shows "fst (loop i \<lparr>gameStateRef = Some \<lparr>player = p,
                         obstacles = [\<lparr>o_x = x, o_y = oy, o_width = ow, o_height = oh\<rparr>],
                         lastSpawnX = lx, speed = sp, score = sc, running = True,
                         groundOffset = go\<rparr>,
                      lastTimeRef = l, react = r, localStorage = st\<rparr>)
    = (let ob = \<lparr>o_x = x - sp / 25, o_y = oy, o_width = ow, o_height = oh\<rparr>;
           s' = \<lparr>player = clampToGround (groundY i p) (integrate (1 / 25) p), obstacles = [ob],
                 lastSpawnX = lx, speed = sp + 4 / 5, score = sc + \<lfloor>(sp + 4 / 5) / 500\<rfloor>,
                 running = True, groundOffset = js_rem (go + (sp + 4 / 5) / 25) 60\<rparr>;
           c1 = \<lparr>state = s',
                 ui = (if score s' > score_st (captured i) then r\<lparr>score_st := score s'\<rparr> else r),
                 store = st\<rparr>;
           c2 = (if rectsCollide (playerRect (player s')) (obstacleRect i ob)
                 then gameOver i c1 else c1)
       in \<lparr>gameStateRef = Some (state c2), lastTimeRef = timestamp i, react = ui c2,
           localStorage = store c2\<rparr>)"
proof -
  have dt: "min 40 (timestamp i - l) / 1000 = 1 / 25"
    using clock by simp
  show ?thesis
    using unpaused clock(1) kept no_spawn
    by (simp add: loop_def frame_dt_def current_state_def update_def advance_def Let_def dt
        advanceGround_def addScore_def score_gain_def spawnStep_def spawn_due_def
        spawnEarlyTime_def dropOffscreen_def accelerate_def moveObstacles_def
        obstacleAcceleration_def field_simps)
qed

subsection \<open>Two sessions of one mount\<close>

lemmas frame_arith =
  groundY_def dpr_or_1_def integrate_def clampToGround_def js_rem_def playerRect_def
  obstacleRect_def rectsCollide_def gameOver_def setItem_def spawn_gap_def Let_def
  gravity_def groundHeight_def player_w_def player_h_def player_startX_def
  player_startYOffset_def obstacleMinGap_def obstacleMaxGap_def obstacleSpeedStart_def

lemma String_int_20: "String_int 20 = ''20''"
  by code_simp

lemma String_int_5: "String_int 5 = ''5''"
  by code_simp

lemma play_append: "play cap (es1 @ es2) w = play cap es2 (play cap es1 w)"
  by (induction cap es1 w rule: play.induct) simp_all

text \<open>
  The world after the first session: the player has landed, the obstacle has reached
  the player in the 45th frame, and the 20 points have been stored.
\<close>

lemma after_first_session:
  "play (initial_component Map.empty) first_session (mount Map.empty)
     = \<lparr>gameStateRef = Some
          \<lparr>player = \<lparr>p_x = 80, p_y = 280, p_vy = 0, p_width = 44, p_height = 44,
                       p_grounded = True\<rparr>,
           obstacles = [\<lparr>o_x = 13866 / 125, o_y = 0, o_width = 52, o_height = 68\<rparr>],
           lastSpawnX = 986, speed = 2576 / 5, score = 20, running = False,
           groundOffset = 912 / 25\<rparr>,
        lastTimeRef = 2760,
        react = \<lparr>running_st = False, score_st = 20, highScore_st = Fin 20, paused_st = False\<rparr>,
        localStorage = Map.empty(highscore_key \<mapsto> ''20'')\<rparr>"
  by (simp add: first_session_def frames_def upt_conv_Cons far_draws_def mount_def
      initial_component_def initHighScore_def getItem_def js_or_def resetGameState_def
      first_frame one_obstacle_frame frame_arith String_int_20)

text \<open>The world after the restart and the second session, which ends with 5 points.\<close>

lemma after_second_session:
  "play (initial_component Map.empty) second_session
     \<lparr>gameStateRef = Some
          \<lparr>player = \<lparr>p_x = 80, p_y = 280, p_vy = 0, p_width = 44, p_height = 44,
                       p_grounded = True\<rparr>,
           obstacles = [\<lparr>o_x = 13866 / 125, o_y = 0, o_width = 52, o_height = 68\<rparr>],
           lastSpawnX = 986, speed = 2576 / 5, score = 20, running = False,
           groundOffset = 912 / 25\<rparr>,
        lastTimeRef = 2760,
        react = \<lparr>running_st = False, score_st = 20, highScore_st = Fin 20, paused_st = False\<rparr>,
        localStorage = Map.empty(highscore_key \<mapsto> ''20'')\<rparr>
     = \<lparr>gameStateRef = Some
          \<lparr>player = \<lparr>p_x = 80, p_y = 280, p_vy = 0, p_width = 44, p_height = 44,
                       p_grounded = True\<rparr>,
           obstacles = [\<lparr>o_x = 13776 / 125, o_y = 0, o_width = 52, o_height = 68\<rparr>],
           lastSpawnX = 680, speed = 2516 / 5, score = 5, running = False,
           groundOffset = 768 / 25\<rparr>,
        lastTimeRef = 6160,
        react = \<lparr>running_st = False, score_st = 5, highScore_st = Fin 5, paused_st = False\<rparr>,
        localStorage = Map.empty(highscore_key \<mapsto> ''5'')\<rparr>"
  by (simp add: second_session_def frames_def upt_conv_Cons near_draws_def
      initial_component_def initHighScore_def getItem_def js_or_def resetGameState_def
      restart_def first_frame one_obstacle_frame frame_arith String_int_5)

lemma persisted_20: "initHighScore (Some (Map.empty(highscore_key \<mapsto> ''20''))) = Fin 20"
  by code_simp

lemma persisted_none: "initHighScore (Some Map.empty) = Fin 0"
  by (simp add: initHighScore_def getItem_def js_or_def)

text \<open>
  C4 (violated by the code). The persisted high score is to be overwritten only by a
  score that strictly exceeds it. The component is mounted on an empty store and is
  never paused, so the loop keeps the high score 0 of the first render. In the first
  session the player stays on the ground and runs into the obstacle in the 45th frame
  with 20 points: the store receives \<open>20\<close>, which a startup read would give back as 20,
  and the component's high score becomes 20. After a restart the player runs into the
  next obstacle in the 30th frame with 5 points, which do not exceed 20. The loop
  compares 5 with the 0 it still holds, and the persisted high score 20 is overwritten
  with 5, as is the component's high score.
\<close>

theorem lower_score_overwrites_persisted_high_score:
  "localStorage (play (initial_component Map.empty) first_session (mount Map.empty))
     highscore_key = Some ''20''
   \<and> initHighScore (Some (localStorage
        (play (initial_component Map.empty) first_session (mount Map.empty)))) = Fin 20
   \<and> highScore_st (react
        (play (initial_component Map.empty) first_session (mount Map.empty))) = Fin 20
   \<and> highScore_st (initial_component Map.empty) = Fin 0
   \<and> score (current_state (play (initial_component Map.empty)
        (first_session @ second_session) (mount Map.empty))) = 5
   \<and> running (current_state (play (initial_component Map.empty)
        (first_session @ second_session) (mount Map.empty))) = False
   \<and> \<not> js_gt (Fin 5) (Fin 20)
   \<and> localStorage (play (initial_component Map.empty)
        (first_session @ second_session) (mount Map.empty)) highscore_key = Some ''5''
   \<and> highScore_st (react (play (initial_component Map.empty)
        (first_session @ second_session) (mount Map.empty))) = Fin 5"
  unfolding play_append after_first_session after_second_session
  by (simp add: persisted_20 persisted_none current_state_def initial_component_def)

section \<open>Reading the high score at startup\<close>

lemma charVal_digit: "(d::nat) < 10 \<Longrightarrow> charVal (char_of (48 + d)) = Some d"
  by (simp add: charVal_def Let_def)

lemma isDec_digit: "(d::nat) < 10 \<Longrightarrow> isDec (char_of (48 + d))"
  by (simp add: isDec_def charVal_digit)

lemma isDec_not_white: "isDec c \<Longrightarrow> \<not> isWhiteSpace c"
  by (auto simp: isDec_def isWhiteSpace_def charVal_def Let_def split: if_splits)

lemma isDec_not_sign:
  "isDec c \<Longrightarrow> c \<noteq> CHR ''+'' \<and> c \<noteq> CHR ''-'' \<and> c \<noteq> CHR ''I''"
  by (auto simp: isDec_def charVal_def Let_def)

lemma isDec_not_prefix:
  "isDec c \<Longrightarrow> c \<noteq> CHR ''x'' \<and> c \<noteq> CHR ''X'' \<and> c \<noteq> CHR ''o'' \<and> c \<noteq> CHR ''O''
     \<and> c \<noteq> CHR ''b'' \<and> c \<noteq> CHR ''B''"
  by (auto simp: isDec_def charVal_def Let_def)

lemma natDigits_nonempty: "natDigits n \<noteq> []"
  by (subst natDigits.simps) simp

lemma natDigits_isDec: "c \<in> set (natDigits n) \<Longrightarrow> isDec c"
proof (induction n arbitrary: c rule: natDigits.induct)
  case (1 n)
  show ?case
  proof (cases "n < 10")
    case True
    with "1.prems" show ?thesis
      by (subst (asm) natDigits.simps) (simp add: isDec_digit)
  next
    case False
    with "1.prems" have "c \<in> set (natDigits (n div 10)) \<or> c = char_of (48 + n mod 10)"
      by (subst (asm) natDigits.simps) auto
    then show ?thesis
      using "1.IH" [OF False] by (auto simp: isDec_digit)
  qed
qed

lemma digitsAcc_append:
  "digitsAcc r acc (xs @ ys)
     = (case digitsAcc r acc xs of None \<Rightarrow> None | Some a \<Rightarrow> digitsAcc r a ys)"
  by (induction xs arbitrary: acc) (simp_all split: option.splits)

lemma digitsAcc_natDigits: "digitsAcc 10 0 (natDigits n) = Some n"
proof (induction n rule: natDigits.induct)
  case (1 n)
  show ?case
  proof (cases "n < 10")
    case True
    then show ?thesis
      by (subst natDigits.simps) (simp add: charVal_digit)
  next
    case False
    have "digitsAcc 10 0 (natDigits (n div 10) @ [char_of (48 + n mod 10)])
            = digitsAcc 10 (n div 10) [char_of (48 + n mod 10)]"
      by (simp add: digitsAcc_append "1.IH" [OF False])
    also have "\<dots> = Some (n div 10 * 10 + n mod 10)"
      by (simp add: charVal_digit)
    finally show ?thesis
      using False by (subst natDigits.simps) simp
  qed
qed

lemma dropWhile_none: "(\<And>c. c \<in> set s \<Longrightarrow> \<not> P c) \<Longrightarrow> dropWhile P s = s"
  by (cases s) simp_all

lemma trim_unchanged:
  assumes "s \<noteq> []" and "\<not> isWhiteSpace (hd s)" and "\<not> isWhiteSpace (last s)"
  shows "trim s = s"
proof -
  have "dropWhile isWhiteSpace s = s"
    using assms(1,2) by (cases s) simp_all
  moreover have "dropWhile isWhiteSpace (rev s) = rev s"
    using assms(1,3) by (cases "rev s") (simp_all add: last_rev [symmetric] hd_rev)
  ultimately show ?thesis
    by (simp add: trim_def)
qed

lemma unsignedDecimal_digits:
  assumes "s \<noteq> []" and "\<And>c. c \<in> set s \<Longrightarrow> isDec c"
  shows "unsignedDecimal s = Some (Fin (real (decNat s)))"
proof -
  have "hd s \<noteq> CHR ''I''"
    using assms isDec_not_sign [of "hd s"] by simp
  then have inf: "s \<noteq> ''Infinity''"
    by auto
  have tw: "takeWhile isDec s = s" and dw: "dropWhile isDec s = []"
    using assms(2) by simp_all
  show ?thesis
    using assms(1) inf by (simp add: unsignedDecimal_def tw dw exponentPart_def decNat_def)
qed

lemma StringToNumber_natDigits: "StringToNumber (natDigits n) = Fin (real n)"
proof -
  let ?s = "natDigits n"
  have ne: "?s \<noteq> []"
    by (rule natDigits_nonempty)
  have dec: "\<And>c. c \<in> set ?s \<Longrightarrow> isDec c"
    by (rule natDigits_isDec)
  have "isDec (hd ?s)" and "isDec (last ?s)"
    using ne dec by simp_all
  then have tr: "trim ?s = ?s"
    using ne by (intro trim_unchanged) (simp_all add: isDec_not_white)
  have nd: "nonDecimalInteger ?s = None"
  proof (cases ?s)
    case Nil
    then show ?thesis by (simp add: nonDecimalInteger_def)
  next
    case (Cons a r)
    show ?thesis
    proof (cases r)
      case Nil
      with Cons show ?thesis by (simp add: nonDecimalInteger_def)
    next
      case (Cons b r')
      with \<open>?s = a # r\<close> have "isDec b"
        using dec [of b] by simp
      with Cons \<open>?s = a # r\<close> show ?thesis
        using isDec_not_prefix [of b] by (simp add: nonDecimalInteger_def)
    qed
  qed
  have "hd ?s \<noteq> CHR ''+''" and "hd ?s \<noteq> CHR ''-''"
    using \<open>isDec (hd ?s)\<close> isDec_not_sign [of "hd ?s"] by simp_all
  then have "strDecimalLiteral ?s = unsignedDecimal ?s"
    using ne by (cases ?s) (simp_all add: strDecimalLiteral_def)
  also have "\<dots> = Some (Fin (real (decNat ?s)))"
    using ne dec by (rule unsignedDecimal_digits)
  also have "decNat ?s = n"
    by (simp add: decNat_def digitsAcc_natDigits)
  finally have "strDecimalLiteral ?s = Some (Fin (real n))" .
  then show ?thesis
    using ne by (simp add: StringToNumber_def tr nd)
qed

lemma StringToNumber_minus_natDigits:
  "StringToNumber (CHR ''-'' # natDigits n) = Fin (- real n)"
proof -
  let ?s = "natDigits n"
  have ne: "?s \<noteq> []"
    by (rule natDigits_nonempty)
  have dec: "\<And>c. c \<in> set ?s \<Longrightarrow> isDec c"
    by (rule natDigits_isDec)
  have "isDec (last ?s)"
    using ne dec by simp
  then have "\<not> isWhiteSpace (last (CHR ''-'' # ?s))"
    using ne by (simp add: isDec_not_white)
  moreover have "\<not> isWhiteSpace (hd (CHR ''-'' # ?s))"
    by (simp add: isWhiteSpace_def)
  ultimately have tr: "trim (CHR ''-'' # ?s) = CHR ''-'' # ?s"
    by (intro trim_unchanged) simp_all
  have nd: "nonDecimalInteger (CHR ''-'' # ?s) = None"
    by (simp add: nonDecimalInteger_def split: list.splits)
  have "unsignedDecimal ?s = Some (Fin (real (decNat ?s)))"
    using ne dec by (rule unsignedDecimal_digits)
  moreover have "decNat ?s = n"
    by (simp add: decNat_def digitsAcc_natDigits)
  ultimately have "strDecimalLiteral (CHR ''-'' # ?s) = Some (Fin (- real n))"
    by (simp add: strDecimalLiteral_def)
  then show ?thesis
    by (simp add: StringToNumber_def tr nd)
qed

lemma StringToNumber_String_int: "StringToNumber (String_int n) = Fin (of_int n)"
proof (cases "n < 0")
  case True
  then have "real (nat (- n)) = - of_int n"
    by simp
  with True show ?thesis
    by (simp add: String_int_def StringToNumber_minus_natDigits)
next
  case False
  then have "real (nat n) = of_int n"
    by simp
  with False show ?thesis
    by (simp add: String_int_def StringToNumber_natDigits)
qed

lemma String_int_nonempty: "String_int n \<noteq> []"
  by (simp add: String_int_def natDigits_nonempty)

text \<open>
  C5 (as stated, refuted). With the text \<open>abc\<close> stored under the key, which does not
  parse as an integer, the startup read yields NaN and not 0.
\<close>

theorem initHighScore_unparsable_counterexample:
  "initHighScore (Some (Map.empty(''classic-highscore'' \<mapsto> ''abc''))) = NaN
   \<and> initHighScore (Some (Map.empty(''classic-highscore'' \<mapsto> ''abc''))) \<noteq> Fin 0"
  by (simp add: initHighScore_def highscore_key_def getItem_def js_or_def StringToNumber_def
      trim_def isWhiteSpace_def nonDecimalInteger_def strDecimalLiteral_def
      unsignedDecimal_def isDec_def charVal_def exponentPart_def)

text \<open>
  C5 (amended). The startup read uses the key \<open>classic-highscore\<close>. It yields 0 when
  there is no window, when nothing is stored under the key and when the stored text is
  empty. Any other stored text is converted by \<open>Number\<close>: the decimal text of an integer,
  as the game writes it, yields that integer, and text that \<open>Number\<close> does not accept
  yields NaN.
\<close>

theorem initHighScore_read:
  "highscore_key = ''classic-highscore''
   \<and> initHighScore None = Fin 0
   \<and> initHighScore (Some st)
       = (case st highscore_key of
            None \<Rightarrow> Fin 0
          | Some v \<Rightarrow> if v = [] then Fin 0 else StringToNumber v)
   \<and> (st highscore_key = None \<longrightarrow> initHighScore (Some st) = Fin 0)
   \<and> (st highscore_key = Some [] \<longrightarrow> initHighScore (Some st) = Fin 0)
   \<and> (st highscore_key = Some (String_int n) \<longrightarrow> initHighScore (Some st) = Fin (of_int n))
   \<and> (st highscore_key = Some v \<and> v \<noteq> [] \<and> StringToNumber v = NaN \<longrightarrow>
        initHighScore (Some st) = NaN)"
  by (simp add: initHighScore_def highscore_key_def getItem_def js_or_def
      StringToNumber_String_int String_int_nonempty split: option.splits)

theorem initHighScore_read_witness:
  "Map.empty highscore_key = (None :: string option)
   \<and> initHighScore (Some Map.empty) = Fin 0
   \<and> (Map.empty(highscore_key \<mapsto> String_int 1205)) highscore_key = Some ''1205''
   \<and> initHighScore (Some (Map.empty(highscore_key \<mapsto> String_int 1205))) = Fin 1205"
proof -
  have s: "String_int 1205 = ''1205''"
    by code_simp
  have h: "(Map.empty(highscore_key \<mapsto> String_int 1205)) highscore_key = Some (String_int 1205)"
    by simp
  from initHighScore_read [of Map.empty] have a: "initHighScore (Some Map.empty) = Fin 0"
    by simp
  from initHighScore_read [of "Map.empty(highscore_key \<mapsto> String_int 1205)" 1205] h
  have b: "initHighScore (Some (Map.empty(highscore_key \<mapsto> String_int 1205))) = Fin (of_int 1205)"
    by blast
  from a b h show ?thesis
    by (simp add: s)
qed

section \<open>Second implementation: the score counts removed obstacles\<close>

lemma forEach2_stop:
  "\<not> k < len \<Longrightarrow> forEach2 gs p k len c = c"
  by (cases c) (simp add: forEach2.simps)

lemma forEach2_skip:
  "k < len \<Longrightarrow> \<not> k < length obs \<Longrightarrow>
   forEach2 gs p k len (obs, rn, sc) = forEach2 gs p (k + 1) len (obs, rn, sc)"
  by (subst forEach2.simps) simp

lemma forEach2_remove:
  "k < len \<Longrightarrow> k < length obs \<Longrightarrow> off_left (scrolled gs (obs ! k)) \<Longrightarrow>
   forEach2 gs p k len (obs, rn, sc)
     = forEach2 gs p (k + 1) len
         (take k obs @ drop (k + 1) obs,
          (if collides2 p (scrolled gs (obs ! k)) then False else rn), sc + 1)"
  by (subst forEach2.simps) (simp add: Let_def off_left_def scrolled_def)

lemma forEach2_keep:
  "k < len \<Longrightarrow> k < length obs \<Longrightarrow> \<not> off_left (scrolled gs (obs ! k)) \<Longrightarrow>
   forEach2 gs p k len (obs, rn, sc)
     = forEach2 gs p (k + 1) len
         (obs[k := scrolled gs (obs ! k)],
          (if collides2 p (scrolled gs (obs ! k)) then False else rn), sc)"
  by (subst forEach2.simps) (simp add: Let_def off_left_def scrolled_def)

text \<open>Every removal adds one to the score, and nothing else changes the score.\<close>

lemma forEach2_conserve:
  "snd (snd (forEach2 gs p k len (obs, rn, sc))) + length (fst (forEach2 gs p k len (obs, rn, sc)))
     = sc + length obs"
proof (induction "len - k" arbitrary: k obs rn sc)
  case 0
  then show ?case by (simp add: forEach2_stop)
next
  case (Suc n)
  then have lt: "k < len" and n: "n = len - (k + 1)"
    by simp_all
  show ?case
  proof (cases "k < length obs")
    case False
    with lt Suc.hyps(1) [OF n] show ?thesis
      by (simp add: forEach2_skip)
  next
    case True
    show ?thesis
    proof (cases "off_left (scrolled gs (obs ! k))")
      case off: True
      have "length (take k obs @ drop (k + 1) obs) + 1 = length obs"
        using True by simp
      with Suc.hyps(1) [OF n, of "take k obs @ drop (k + 1) obs" _ "sc + 1"] show ?thesis
        unfolding forEach2_remove [OF lt True off] by simp
    next
      case on: False
      from Suc.hyps(1) [OF n, of "obs[k := scrolled gs (obs ! k)]" _ sc] show ?thesis
        unfolding forEach2_keep [OF lt True on] by simp
    qed
  qed
qed

text \<open>Where no visited obstacle ends left of the edge, nothing is removed or counted.\<close>

lemma forEach2_none_off:
  "length obs \<le> len \<Longrightarrow>
   \<forall>j. k \<le> j \<and> j < length obs \<longrightarrow> \<not> off_left (scrolled gs (obs ! j)) \<Longrightarrow>
   fst (forEach2 gs p k len (obs, rn, sc)) = take k obs @ map (scrolled gs) (drop k obs)
   \<and> snd (snd (forEach2 gs p k len (obs, rn, sc))) = sc"
proof (induction "len - k" arbitrary: k obs rn sc)
  case 0
  then show ?case by (simp add: forEach2_stop)
next
  case (Suc n)
  then have lt: "k < len" and n: "n = len - (k + 1)"
    by simp_all
  show ?case
  proof (cases "k < length obs")
    case False
    with lt have "forEach2 gs p k len (obs, rn, sc) = forEach2 gs p (k + 1) len (obs, rn, sc)"
      by (simp add: forEach2_skip)
    moreover from Suc.prems
    have "\<forall>j. k + 1 \<le> j \<and> j < length obs \<longrightarrow> \<not> off_left (scrolled gs (obs ! j))"
      by simp
    ultimately show ?thesis
      using Suc.hyps(1) [OF n Suc.prems(1), of rn sc] False by simp
  next
    case True
    let ?obs = "obs[k := scrolled gs (obs ! k)]"
    from Suc.prems True have on: "\<not> off_left (scrolled gs (obs ! k))"
      by simp
    have len: "length ?obs \<le> len"
      using Suc.prems(1) by simp
    have rest: "\<forall>j. k + 1 \<le> j \<and> j < length ?obs \<longrightarrow> \<not> off_left (scrolled gs (?obs ! j))"
      using Suc.prems(2) by simp
    have dk: "drop k obs = obs ! k # drop (k + 1) obs"
      using True by (simp add: Cons_nth_drop_Suc)
    have tk: "take (Suc k) ?obs = take k obs @ [scrolled gs (obs ! k)]"
      using True by (simp add: take_Suc_conv_app_nth)
    from Suc.hyps(1) [OF n len rest, of _ sc] show ?thesis
      unfolding forEach2_keep [OF lt True on] by (simp add: tk dk)
  qed
qed

text \<open>No obstacle whose right edge is left of \<open>x = 0\<close> stays in the array.\<close>

lemma forEach2_on_screen:
  "\<forall>ob \<in> set obs. \<not> off_left ob \<Longrightarrow>
   \<forall>ob \<in> set (fst (forEach2 gs p k len (obs, rn, sc))). \<not> off_left ob"
proof (induction "len - k" arbitrary: k obs rn sc)
  case 0
  then show ?case by (simp add: forEach2_stop)
next
  case (Suc n)
  then have lt: "k < len" and n: "n = len - (k + 1)"
    by simp_all
  show ?case
  proof (cases "k < length obs")
    case False
    with lt Suc.hyps(1) [OF n Suc.prems] show ?thesis
      by (simp add: forEach2_skip)
  next
    case True
    show ?thesis
    proof (cases "off_left (scrolled gs (obs ! k))")
      case off: True
      have "set (take k obs @ drop (k + 1) obs) \<subseteq> set obs"
        using set_take_subset [of k obs] set_drop_subset [of "k + 1" obs] by auto
      with Suc.prems have "\<forall>ob \<in> set (take k obs @ drop (k + 1) obs). \<not> off_left ob"
        by blast
      from Suc.hyps(1) [OF n this] show ?thesis
        unfolding forEach2_remove [OF lt True off] .
    next
      case on: False
      have "set (obs[k := scrolled gs (obs ! k)]) \<subseteq> insert (scrolled gs (obs ! k)) (set obs)"
        by (rule set_update_subset_insert)
      with Suc.prems on have "\<forall>ob \<in> set (obs[k := scrolled gs (obs ! k)]). \<not> off_left ob"
        by blast
      from Suc.hyps(1) [OF n this] show ?thesis
        unfolding forEach2_keep [OF lt True on] .
    qed
  qed
qed

lemma movePlayer2_fields:
  "obstacles2 (movePlayer2 height g) = obstacles2 g"
  "score2 (movePlayer2 height g) = score2 g"
  "frame (movePlayer2 height g) = frame g"
  "running2 (movePlayer2 height g) = running2 g"
  "gameSpeed (movePlayer2 height g) = gameSpeed g"
  by (simp_all add: movePlayer2_def Let_def)

lemma spawned2_movePlayer2:
  "spawned2 width height rnd (movePlayer2 height g) = spawned2 width height rnd g"
  by (simp add: spawned2_def movePlayer2_fields)

lemma loop2_not_running: "\<not> running2 g \<Longrightarrow> loop2 width height rnd g = g"
  by (simp add: loop2_def)

lemma loop2_running:
  assumes "running2 g"
  shows "obstacles2 (loop2 width height rnd g)
           = fst (forEach2 (gameSpeed g) (player2 (movePlayer2 height g)) 0
                    (length (spawned2 width height rnd g))
                    (spawned2 width height rnd g, True, score2 g))"
    and "score2 (loop2 width height rnd g)
           = snd (snd (forEach2 (gameSpeed g) (player2 (movePlayer2 height g)) 0
                    (length (spawned2 width height rnd g))
                    (spawned2 width height rnd g, True, score2 g)))"
  using assms
  by (simp_all add: loop2_def Let_def movePlayer2_fields spawned2_movePlayer2
      split: prod.splits)

lemma loop2_conserve:
  "running2 g \<Longrightarrow>
   score2 (loop2 width height rnd g) + length (obstacles2 (loop2 width height rnd g))
     = score2 g + length (spawned2 width height rnd g)"
  by (simp add: loop2_running forEach2_conserve)

lemma length_spawned2:
  "length (spawned2 width height rnd g)
     = length (obstacles2 g) + (if frame g mod 100 = 0 then 1 else 0)"
  by (simp add: spawned2_def spawnObstacle2_def)

lemma spawned2_on_screen:
  assumes "0 \<le> width" and "0 \<le> rnd" and "\<forall>ob \<in> set (obstacles2 g). \<not> off_left ob"
  shows "\<forall>ob \<in> set (spawned2 width height rnd g). \<not> off_left ob"
proof -
  have "0 \<le> width + (40 + rnd * 20)"
    using assms(1,2) by simp
  then show ?thesis
    using assms(3) by (simp add: spawned2_def spawnObstacle2_def off_left_def)
qed

lemma loop2_on_screen:
  assumes "0 \<le> width" and "0 \<le> rnd" and "\<forall>ob \<in> set (obstacles2 g). \<not> off_left ob"
  shows "\<forall>ob \<in> set (obstacles2 (loop2 width height rnd g)). \<not> off_left ob"
proof (cases "running2 g")
  case True
  from spawned2_on_screen [OF assms] show ?thesis
    unfolding loop2_running(1) [OF True] by (rule forEach2_on_screen)
next
  case False
  then show ?thesis
    using assms(3) by (simp add: loop2_not_running)
qed

lemma run2_conserve:
  "score2 (run2 width height rs g) + length (obstacles2 (run2 width height rs g))
     = score2 g + length (obstacles2 g) + spawns2 width height rs g"
proof (induction rs arbitrary: g)
  case Nil
  then show ?case by simp
next
  case (Cons rnd rs)
  show ?case
  proof (cases "running2 g")
    case True
    from loop2_conserve [OF True, of width height rnd]
    have "score2 (loop2 width height rnd g) + length (obstacles2 (loop2 width height rnd g))
            = score2 g + length (obstacles2 g) + (if frame g mod 100 = 0 then 1 else 0)"
      by (simp add: length_spawned2)
    with Cons.IH [of "loop2 width height rnd g"] True show ?thesis
      by simp
  next
    case False
    with Cons.IH [of g] show ?thesis
      by (simp add: loop2_not_running)
  qed
qed

lemma run2_on_screen:
  "0 \<le> width \<Longrightarrow> \<forall>r \<in> set rs. 0 \<le> r \<and> r < 1 \<Longrightarrow> \<forall>ob \<in> set (obstacles2 g). \<not> off_left ob \<Longrightarrow>
   \<forall>ob \<in> set (obstacles2 (run2 width height rs g)). \<not> off_left ob"
proof (induction rs arbitrary: g)
  case Nil
  then show ?case by simp
next
  case (Cons rnd rs)
  from Cons.prems have "0 \<le> rnd"
    by simp
  from loop2_on_screen [OF Cons.prems(1) this Cons.prems(3)]
  have "\<forall>ob \<in> set (obstacles2 (loop2 width height rnd g)). \<not> off_left ob" .
  with Cons.IH [of "loop2 width height rnd g"] Cons.prems(1,2) show ?case
    by simp
qed

text \<open>The index walk with its removals is the walk over the list.\<close>

lemma forEach2_past:
  "length obs \<le> k \<Longrightarrow> forEach2 gs p k len (obs, rn, sc) = (obs, rn, sc)"
proof (induction "len - k" arbitrary: k)
  case 0
  then show ?case by (simp add: forEach2_stop)
next
  case (Suc n)
  then have lt: "k < len" and n: "n = len - (k + 1)"
    by simp_all
  from Suc.prems have "\<not> k < length obs" and "length obs \<le> k + 1"
    by simp_all
  with lt Suc.hyps(1) [OF n] show ?case
    by (simp add: forEach2_skip)
qed

lemma sweep2_keep:
  "\<not> off_left (scrolled gs ob) \<Longrightarrow>
   sweep2 gs (ob # rest) = (scrolled gs ob # fst (sweep2 gs rest), snd (sweep2 gs rest))"
  by (cases rest) simp_all

lemma sweep2_remove_last:
  "off_left (scrolled gs ob) \<Longrightarrow> sweep2 gs [ob] = ([], [scrolled gs ob])"
  by simp

lemma sweep2_remove:
  "off_left (scrolled gs ob) \<Longrightarrow>
   sweep2 gs (ob # nx # rest) = (nx # fst (sweep2 gs rest), scrolled gs ob # snd (sweep2 gs rest))"
  by simp

lemma forEach2_sweep2:
  "k \<le> length obs \<Longrightarrow> length obs \<le> len \<Longrightarrow>
   fst (forEach2 gs p k len (obs, rn, sc)) = take k obs @ fst (sweep2 gs (drop k obs))
   \<and> snd (snd (forEach2 gs p k len (obs, rn, sc))) = sc + length (snd (sweep2 gs (drop k obs)))"
proof (induction "len - k" arbitrary: k obs rn sc)
  case 0
  then show ?case by (simp add: forEach2_stop)
next
  case (Suc n)
  then have lt: "k < len" and n: "n = len - (k + 1)"
    by simp_all
  show ?case
  proof (cases "k < length obs")
    case False
    with Suc.prems(1) have "drop k obs = []" and "take k obs = obs"
      by simp_all
    with False show ?thesis
      by (simp add: forEach2_past)
  next
    case True
    let ?ob = "obs ! k"
    have dk: "drop k obs = ?ob # drop (Suc k) obs"
      using True by (simp add: Cons_nth_drop_Suc)
    show ?thesis
    proof (cases "off_left (scrolled gs ?ob)")
      case on: False
      let ?obs = "obs[k := scrolled gs ?ob]"
      have tk: "take (Suc k) ?obs = take k obs @ [scrolled gs ?ob]"
        using True by (simp add: take_Suc_conv_app_nth)
      have "Suc k \<le> length ?obs" and "length ?obs \<le> len"
        using True Suc.prems(2) by simp_all
      from Suc.hyps(1) [OF n, of ?obs _ sc] this show ?thesis
        unfolding forEach2_keep [OF lt True on] dk sweep2_keep [OF on]
        by (simp add: tk)
    next
      case off: True
      let ?obs = "take k obs @ drop (k + 1) obs"
      have len: "length ?obs \<le> len"
        using Suc.prems(2) by simp
      show ?thesis
      proof (cases "drop (Suc k) obs")
        case Nil
        then have "length obs \<le> Suc k"
          by simp
        then have "length ?obs \<le> k + 1"
          by simp
        then have "forEach2 gs p (k + 1) len (?obs, rn', sc + 1) = (?obs, rn', sc + 1)" for rn'
          by (rule forEach2_past)
        then show ?thesis
          unfolding forEach2_remove [OF lt True off] dk Nil sweep2_remove_last [OF off]
          using Nil by simp
      next
        case (Cons nx rest)
        have dk2: "drop k obs = ?ob # nx # rest"
          by (simp add: dk Cons)
        have k2: "Suc k < length obs"
        proof (rule ccontr)
          assume "\<not> Suc k < length obs"
          then have "drop (Suc k) obs = []"
            by simp
          with Cons show False
            by simp
        qed
        have tk: "take (k + 1) ?obs = take k obs @ [nx]"
          using True Cons by simp
        have dr: "drop (k + 1) ?obs = rest"
          using True Cons by simp
        have "k + 1 \<le> length ?obs"
          using k2 by simp
        from Suc.hyps(1) [OF n this len, of _ "sc + 1"]
        have ih: "fst (forEach2 gs p (k + 1) len (?obs, rn', sc + 1))
                    = (take k obs @ [nx]) @ fst (sweep2 gs rest)
                  \<and> snd (snd (forEach2 gs p (k + 1) len (?obs, rn', sc + 1)))
                    = sc + 1 + length (snd (sweep2 gs rest))" for rn'
          unfolding tk dr .
        show ?thesis
          unfolding forEach2_remove [OF lt True off] dk2 sweep2_remove [OF off]
          using ih by simp
      qed
    qed
  qed
qed

lemma sweep2_removed:
  "ob \<in> set (snd (sweep2 gs obs)) \<Longrightarrow>
   off_left ob \<and> (\<exists>ob0 \<in> set obs. ob = scrolled gs ob0)"
  by (induction gs obs rule: sweep2.induct) (auto split: if_splits)

lemma sweep2_kept:
  "ob \<in> set (fst (sweep2 gs obs)) \<Longrightarrow>
   ob \<in> set obs \<or> (\<not> off_left ob \<and> (\<exists>ob0 \<in> set obs. ob = scrolled gs ob0))"
  by (induction gs obs rule: sweep2.induct) (auto split: if_splits)

lemma sweep2_length:
  "length (fst (sweep2 gs obs)) + length (snd (sweep2 gs obs)) = length obs"
  by (induction gs obs rule: sweep2.induct) simp_all

lemma loop2_sweep2:
  assumes "running2 g"
  shows "obstacles2 (loop2 width height rnd g)
           = fst (sweep2 (gameSpeed g) (spawned2 width height rnd g))"
    and "score2 (loop2 width height rnd g)
           = score2 g + length (snd (sweep2 (gameSpeed g) (spawned2 width height rnd g)))"
  using forEach2_sweep2 [of 0 "spawned2 width height rnd g" "length (spawned2 width height rnd g)"]
  by (simp_all add: loop2_running [OF assms])

lemma run2_removed2:
  "score2 (run2 width height rs g) = score2 g + length (removed2 width height rs g)"
proof (induction rs arbitrary: g)
  case Nil
  then show ?case by simp
next
  case (Cons rnd rs)
  show ?case
  proof (cases "running2 g")
    case True
    with Cons.IH [of "loop2 width height rnd g"] show ?thesis
      by (simp add: loop2_sweep2)
  next
    case False
    with Cons.IH [of g] show ?thesis
      by (simp add: loop2_not_running)
  qed
qed

lemma removed2_off_left:
  "ob \<in> set (removed2 width height rs g) \<Longrightarrow> off_left ob"
proof (induction rs arbitrary: g)
  case Nil
  then show ?case by simp
next
  case (Cons rnd rs)
  then show ?case
    by (auto dest: sweep2_removed split: if_splits)
qed

text \<open>
  C10. In the second implementation the score counts the obstacles that have scrolled
  off the left edge. In a frame of a running game the walk removes an obstacle exactly
  when, after its move, its right edge is left of \<open>x = 0\<close> (the obstacle right after a
  removed one is passed over unmoved in that frame): the array after the frame and the
  obstacles removed are those of the walk over the list, every removed obstacle is an
  obstacle of the array, moved, with its right edge left of \<open>x = 0\<close>, and the score
  grows by exactly the number of removed obstacles. If no obstacle ends the step with
  its right edge left of \<open>x = 0\<close>, none is removed and the score stays; a frame of a
  stopped game changes nothing. Over any run of frames from any state the score has
  grown by the number of obstacles removed during the run, each with its right edge
  left of \<open>x = 0\<close> when removed. From the state in which the effect starts, with score
  \<open>sc\<close>, on a canvas of non-negative width with random draws in \<open>[0, 1)\<close>, the score is
  \<open>sc\<close> plus the number of obstacles spawned minus the number still in the array, and no
  obstacle in the array has its right edge left of \<open>x = 0\<close>. Nothing else changes the
  score; it is not derived from speed and time.
\<close>

theorem score2_counts_removed_obstacles:
  assumes "0 \<le> width" and "\<forall>r \<in> set rs. 0 \<le> r \<and> r < 1"
  shows "score2 (run2 width height rs (start2 height sc j))
           + length (obstacles2 (run2 width height rs (start2 height sc j)))
         = sc + spawns2 width height rs (start2 height sc j)
       \<and> (\<forall>ob \<in> set (obstacles2 (run2 width height rs (start2 height sc j))). \<not> off_left ob)
       \<and> (running2 g \<longrightarrow>
            score2 (loop2 width height rnd g) + length (obstacles2 (loop2 width height rnd g))
              = score2 g + length (spawned2 width height rnd g))
       \<and> (running2 g \<and> (\<forall>ob \<in> set (spawned2 width height rnd g).
                            \<not> off_left (scrolled (gameSpeed g) ob)) \<longrightarrow>
            score2 (loop2 width height rnd g) = score2 g
            \<and> obstacles2 (loop2 width height rnd g)
                = map (scrolled (gameSpeed g)) (spawned2 width height rnd g))
       \<and> (\<not> running2 g \<longrightarrow> loop2 width height rnd g = g)
       \<and> (running2 g \<longrightarrow>
            obstacles2 (loop2 width height rnd g)
              = fst (sweep2 (gameSpeed g) (spawned2 width height rnd g))
            \<and> score2 (loop2 width height rnd g)
                = score2 g + length (snd (sweep2 (gameSpeed g) (spawned2 width height rnd g))))
       \<and> (\<forall>ob \<in> set (snd (sweep2 (gameSpeed g) (spawned2 width height rnd g))).
             o_x ob + o_width ob < 0
             \<and> (\<exists>ob0 \<in> set (spawned2 width height rnd g). ob = ob0\<lparr>o_x := o_x ob0 - gameSpeed g\<rparr>))
       \<and> (\<forall>ob \<in> set (fst (sweep2 (gameSpeed g) (spawned2 width height rnd g))).
             ob \<in> set (spawned2 width height rnd g)
             \<or> (\<not> o_x ob + o_width ob < 0
                 \<and> (\<exists>ob0 \<in> set (spawned2 width height rnd g). ob = ob0\<lparr>o_x := o_x ob0 - gameSpeed g\<rparr>)))
       \<and> score2 (run2 width height rs g) = score2 g + length (removed2 width height rs g)
       \<and> (\<forall>ob \<in> set (removed2 width height rs g). o_x ob + o_width ob < 0)"
proof (intro conjI impI ballI)
  let ?g0 = "start2 height sc j"
  have init: "score2 ?g0 = sc" "obstacles2 ?g0 = []"
    by (simp_all add: start2_def)
  show "score2 (run2 width height rs ?g0) + length (obstacles2 (run2 width height rs ?g0))
         = sc + spawns2 width height rs ?g0"
    using run2_conserve [of width height rs ?g0] by (simp add: init)
  show "\<not> off_left ob" if "ob \<in> set (obstacles2 (run2 width height rs ?g0))" for ob
    using run2_on_screen [of width rs ?g0 height] assms that by (simp add: init)
next
  assume "running2 g"
  then show "score2 (loop2 width height rnd g) + length (obstacles2 (loop2 width height rnd g))
              = score2 g + length (spawned2 width height rnd g)"
    by (rule loop2_conserve)
next
  assume h: "running2 g \<and> (\<forall>ob \<in> set (spawned2 width height rnd g).
                            \<not> off_left (scrolled (gameSpeed g) ob))"
  then have run: "running2 g"
    and none: "\<forall>k. 0 \<le> k \<and> k < length (spawned2 width height rnd g)
                 \<longrightarrow> \<not> off_left (scrolled (gameSpeed g) (spawned2 width height rnd g ! k))"
    by simp_all
  from forEach2_none_off [OF order_refl none]
  show "score2 (loop2 width height rnd g) = score2 g"
    and "obstacles2 (loop2 width height rnd g)
                = map (scrolled (gameSpeed g)) (spawned2 width height rnd g)"
    by (simp_all add: loop2_running [OF run])
next
  assume "\<not> running2 g"
  then show "loop2 width height rnd g = g"
    by (rule loop2_not_running)
next
  assume run: "running2 g"
  show "obstacles2 (loop2 width height rnd g)
          = fst (sweep2 (gameSpeed g) (spawned2 width height rnd g))"
    using run by (rule loop2_sweep2)
  show "score2 (loop2 width height rnd g)
          = score2 g + length (snd (sweep2 (gameSpeed g) (spawned2 width height rnd g)))"
    using run by (rule loop2_sweep2)
next
  fix ob
  assume "ob \<in> set (snd (sweep2 (gameSpeed g) (spawned2 width height rnd g)))"
  from sweep2_removed [OF this]
  show "o_x ob + o_width ob < 0"
    and "\<exists>ob0 \<in> set (spawned2 width height rnd g). ob = ob0\<lparr>o_x := o_x ob0 - gameSpeed g\<rparr>"
    by (simp_all add: off_left_def scrolled_def)
next
  fix ob
  assume "ob \<in> set (fst (sweep2 (gameSpeed g) (spawned2 width height rnd g)))"
  from sweep2_kept [OF this]
  show "ob \<in> set (spawned2 width height rnd g)
        \<or> (\<not> o_x ob + o_width ob < 0
            \<and> (\<exists>ob0 \<in> set (spawned2 width height rnd g). ob = ob0\<lparr>o_x := o_x ob0 - gameSpeed g\<rparr>))"
    by (simp add: off_left_def scrolled_def)
next
  show "score2 (run2 width height rs g) = score2 g + length (removed2 width height rs g)"
    by (rule run2_removed2)
next
  fix ob
  assume "ob \<in> set (removed2 width height rs g)"
  then have "off_left ob"
    by (rule removed2_off_left)
  then show "o_x ob + o_width ob < 0"
    by (simp add: off_left_def)
qed

theorem score2_counts_removed_obstacles_witness:
  "running2 passing_state
   \<and> score2 passing_state = 1
   \<and> snd (sweep2 6 (obstacles2 passing_state))
       = [\<lparr>o_x = - 43, o_y = 430, o_width = 42, o_height = 40\<rparr>]
   \<and> score2 (loop2 800 480 (1 / 2) passing_state) = 2
   \<and> obstacles2 (loop2 800 480 (1 / 2) passing_state)
       = [\<lparr>o_x = 420, o_y = 430, o_width = 55, o_height = 40\<rparr>]
   \<and> score2 (run2 800 480 [1 / 2, 1 / 2] passing_state) = 2
   \<and> score2 (run2 800 480 [1 / 2, 1 / 2] (start2 480 0 False)) = 0"
proof -
  have h1: "(0::real) \<le> 800"
    by simp
  have h2: "\<forall>r \<in> set [1 / 2, 1 / 2 :: real]. 0 \<le> r \<and> r < 1"
    by simp
  note inst = score2_counts_removed_obstacles [OF h1 h2, of 480 0 False passing_state "1 / 2"]
  have run: "running2 passing_state" and sc: "score2 passing_state = 1"
    and gs: "gameSpeed passing_state = 6"
    by (simp_all add: passing_state_def)
  have sp: "spawned2 800 480 (1 / 2) passing_state = obstacles2 passing_state"
    by (simp add: spawned2_def passing_state_def)
  have sw: "sweep2 6 (obstacles2 passing_state)
      = ([\<lparr>o_x = 420, o_y = 430, o_width = 55, o_height = 40\<rparr>],
         [\<lparr>o_x = - 43, o_y = 430, o_width = 42, o_height = 40\<rparr>])"
    by (simp add: passing_state_def off_left_def scrolled_def)
  from inst run have "obstacles2 (loop2 800 480 (1 / 2) passing_state)
              = fst (sweep2 (gameSpeed passing_state) (spawned2 800 480 (1 / 2) passing_state))"
    and "score2 (loop2 800 480 (1 / 2) passing_state)
                = score2 passing_state
                  + length (snd (sweep2 (gameSpeed passing_state)
                      (spawned2 800 480 (1 / 2) passing_state)))"
    by blast+
  then have one: "obstacles2 (loop2 800 480 (1 / 2) passing_state)
              = [\<lparr>o_x = 420, o_y = 430, o_width = 55, o_height = 40\<rparr>]"
    "score2 (loop2 800 480 (1 / 2) passing_state) = 2"
    unfolding gs sp sw sc by simp_all
  have two: "score2 (run2 800 480 [1 / 2, 1 / 2] passing_state) = 2"
    by code_simp
  have start: "score2 (run2 800 480 [1 / 2, 1 / 2] (start2 480 0 False)) = 0"
    by code_simp
  from run sc sw one two start show ?thesis
    by simp
qed

end
